theory Spec2Isabelle
  imports Complex_Main
begin

section \<open>Collision shape cache (CollisionShapeCache.cpp)\<close>

subsection \<open>Floating-point values\<close>

text \<open>
  The numbers of the source are \<^verbatim>\<open>float\<close> and \<^verbatim>\<open>double\<close> values. A value is
  not-a-number, an infinity, or finite; the model does no arithmetic on them:
  every product and sum of the source is made by a function of the MRPT
  library, which is a parameter below. What the source itself does is to
  compare, and the comparisons of IEEE 754 are exact: \<^verbatim>\<open>a < b\<close> is false as
  soon as one side is not-a-number, and \<^verbatim>\<open>a > b\<close> is \<^verbatim>\<open>b < a\<close>. The counters
  \<^verbatim>\<open>numTotalPts\<close> and \<^verbatim>\<open>numPassedPts\<close> are \<^verbatim>\<open>size_t\<close>; they only count and are
  read as natural numbers.
\<close>

datatype ieee = NaN | MinusInf | Finite real | PlusInf

fun ieee_less :: "ieee \<Rightarrow> ieee \<Rightarrow> bool" where
  "ieee_less (Finite a) (Finite b) = (a < b)"
| "ieee_less MinusInf (Finite b) = True"
| "ieee_less MinusInf PlusInf = True"
| "ieee_less (Finite a) PlusInf = True"
| "ieee_less a b = False"

text \<open>The comparison \<^verbatim>\<open>a <= b\<close>, in which the claims of the specification are worded.\<close>

fun ieee_le :: "ieee \<Rightarrow> ieee \<Rightarrow> bool" where
  "ieee_le (Finite a) (Finite b) = (a \<le> b)"
| "ieee_le NaN b = False"
| "ieee_le a NaN = False"
| "ieee_le MinusInf b = True"
| "ieee_le a PlusInf = True"
| "ieee_le a b = False"

subsection \<open>Points and visual objects\<close>

text \<open>\<^verbatim>\<open>mrpt::math::TPoint3Df\<close>: three \<^verbatim>\<open>float\<close> coordinates.\<close>

record TPoint3Df =
  pt_x :: ieee
  pt_y :: ieee
  pt_z :: ieee

text \<open>
  A triangle of a shader buffer: the positions \<^verbatim>\<open>v.xyzrgba.pt\<close> of its three
  \<^verbatim>\<open>vertices\<close>, in the order of the array.
\<close>

type_synonym triangle = "TPoint3Df \<times> TPoint3Df \<times> TPoint3Df"

fun tri_vertices :: "triangle \<Rightarrow> TPoint3Df list" where
  "tri_vertices (a, b, c) = [a, b, c]"

text \<open>
  The visual object \<^verbatim>\<open>obj\<close> as \<^verbatim>\<open>get\<close> sees it. Each field answers one
  \<^verbatim>\<open>dynamic_cast\<close> of the body: \<open>None\<close> when the cast gives a null pointer,
  otherwise the buffer that the class exposes, as it is once its
  \<^verbatim>\<open>onUpdateBuffers_...\<close> method has run. For a \<^verbatim>\<open>CAssimpModel\<close> the buffer is the
  list \<^verbatim>\<open>texturedObjects()\<close> of sub-objects, each a pointer that may be null
  (\<open>None\<close>) or hold a buffer of textured triangles.
\<close>

record CRenderizable =
  oAssimp :: "triangle list option list option"
  oRSWF :: "TPoint3Df list option"
  oRST :: "triangle list option"
  oRSTT :: "triangle list option"
  oRP :: "TPoint3Df list option"

text \<open>
  The calls that \<^verbatim>\<open>get\<close> makes on the visual object: the buffer updates and the
  locked reads of a buffer (\<open>Read_TexturedObject i\<close> is the read of the \<open>i\<close>-th
  sub-object of a \<^verbatim>\<open>CAssimpModel\<close>). The model returns them in program order.
\<close>

datatype access =
    OnUpdateBuffers_all
  | OnUpdateBuffers_Wireframe
  | OnUpdateBuffers_Triangles
  | OnUpdateBuffers_TexturedTriangles
  | OnUpdateBuffers_Points
  | Read_Triangles
  | Read_TexturedTriangles
  | Read_Points
  | Read_Wireframe
  | Read_TexturedObject nat

subsection \<open>What the body of \<^verbatim>\<open>get\<close> takes from outside this file\<close>

text \<open>
  The product of a point by a scalar (\<^verbatim>\<open>orgPt * modelScale\<close>, an operator of
  \<^verbatim>\<open>TPoint3Df\<close>, here \<open>times_scalar\<close>) and \<^verbatim>\<open>CPose3D::composePoint\<close> belong to
  the MRPT library and compute in floating point, and \<^verbatim>\<open>MRPT_VERSION\<close> is
  fixed when the program is built. The class \<^verbatim>\<open>Shape2p5\<close> is declared in
  \<^verbatim>\<open>CollisionShapeCache.h\<close>: its default constructor, its
  \<^verbatim>\<open>CreateConvexHullFromPoints\<close> and its \<^verbatim>\<open>volume\<close> (a \<^verbatim>\<open>double\<close>) are used by
  \<^verbatim>\<open>get\<close>. All of them are parameters of the model: \<open>'p\<close> is the type of
  poses and \<open>'s\<close> the type of shapes.
\<close>

record ('p, 's) deps =
  MRPT_VERSION :: nat
  times_scalar :: "TPoint3Df \<Rightarrow> ieee \<Rightarrow> TPoint3Df"
  composePoint :: "'p \<Rightarrow> TPoint3Df \<Rightarrow> TPoint3Df"
  Shape2p5_new :: 's
  CreateConvexHullFromPoints :: "TPoint3Df list \<Rightarrow> 's"
  volume :: "'s \<Rightarrow> ieee"

text \<open>An entry of the cache (\<^verbatim>\<open>cache[key].convexHull\<close>) and the cache itself.\<close>

record 's Entry =
  convexHull :: 's

type_synonym 's cache = "string \<rightharpoonup> 's Entry"

text \<open>
  The exception of \<^verbatim>\<open>THROW_EXCEPTION_FMT\<close>. Its message is a fixed text with two
  holes: \<^verbatim>\<open>%s\<close>, filled with the model file name or \<^verbatim>\<open>none\<close>, and \<^verbatim>\<open>%g\<close>,
  filled with the volume. The error value holds the two arguments.
\<close>

datatype error = NullVolume (err_model: string) (err_vol: ieee)

subsection \<open>The height slice\<close>

text \<open>The local state of the traversal: both counters and the vector \<^verbatim>\<open>allPts\<close>.\<close>

record scan =
  numTotalPts :: nat
  numPassedPts :: nat
  allPts :: "TPoint3Df list"

definition scan0 :: scan where
  "scan0 = \<lparr>numTotalPts = 0, numPassedPts = 0, allPts = []\<rparr>"

text \<open>
  Lines 75 to 81. The test of line 78 is \<^verbatim>\<open>pt.z < zMin || pt.z > zMax\<close>, on
  \<^verbatim>\<open>float\<close> values.
\<close>

definition lambdaUpdatePt ::
  "('p, 's) deps \<Rightarrow> ieee \<Rightarrow> ieee \<Rightarrow> 'p \<Rightarrow> ieee \<Rightarrow> scan \<Rightarrow> TPoint3Df \<Rightarrow> scan" where
  "lambdaUpdatePt D zMin zMax modelPose modelScale st orgPt =
     (let st1 = st\<lparr>numTotalPts := numTotalPts st + 1\<rparr>;
          pt = composePoint D modelPose (times_scalar D orgPt modelScale)
      in if ieee_less (pt_z pt) zMin \<or> ieee_less zMax (pt_z pt) then st1
         else st1\<lparr>allPts := allPts st1 @ [pt], numPassedPts := numPassedPts st1 + 1\<rparr>)"

text \<open>The loop over a buffer of triangles and the loop over a buffer of points.\<close>

definition scan_triangles ::
  "(scan \<Rightarrow> TPoint3Df \<Rightarrow> scan) \<Rightarrow> scan \<Rightarrow> triangle list \<Rightarrow> scan" where
  "scan_triangles upd st tris = foldl (\<lambda>s tri. foldl upd s (tri_vertices tri)) st tris"

definition scan_points ::
  "(scan \<Rightarrow> TPoint3Df \<Rightarrow> scan) \<Rightarrow> scan \<Rightarrow> TPoint3Df list \<Rightarrow> scan" where
  "scan_points upd st pts = foldl upd st pts"

text \<open>
  The loop over the sub-objects of a \<^verbatim>\<open>CAssimpModel\<close>; \<open>i\<close> is the index of the
  next sub-object. A null pointer is skipped (\<^verbatim>\<open>continue\<close>).
\<close>

fun scan_textured ::
  "(scan \<Rightarrow> TPoint3Df \<Rightarrow> scan) \<Rightarrow> nat \<Rightarrow> scan \<times> access list \<Rightarrow> triangle list option list
     \<Rightarrow> scan \<times> access list" where
  "scan_textured upd i (st, tr) [] = (st, tr)"
| "scan_textured upd i (st, tr) (None # os) = scan_textured upd (i + 1) (st, tr) os"
| "scan_textured upd i (st, tr) (Some tris # os) =
     scan_textured upd (i + 1) (scan_triangles upd st tris, tr @ [Read_TexturedObject i]) os"

text \<open>Lines 41 to 68: the buffers are brought up to date.\<close>

definition update_buffers :: "CRenderizable \<Rightarrow> access list" where
  "update_buffers obj =
     (if oAssimp obj \<noteq> None then [OnUpdateBuffers_all] else []) @
     (if oRSWF obj \<noteq> None then [OnUpdateBuffers_Wireframe] else []) @
     (if oRST obj \<noteq> None then [OnUpdateBuffers_Triangles] else []) @
     (if oRSTT obj \<noteq> None then [OnUpdateBuffers_TexturedTriangles] else []) @
     (if oRP obj \<noteq> None then [OnUpdateBuffers_Points] else [])"

text \<open>
  Lines 71 to 126: the buffers are read in the order triangles, textured
  triangles, points, wireframe, and, when \<^verbatim>\<open>MRPT_VERSION >= 0x260\<close>, the
  sub-objects of a \<^verbatim>\<open>CAssimpModel\<close>.
\<close>

definition slice_buffers ::
  "('p, 's) deps \<Rightarrow> CRenderizable \<Rightarrow> ieee \<Rightarrow> ieee \<Rightarrow> 'p \<Rightarrow> ieee \<Rightarrow> scan \<times> access list" where
  "slice_buffers D obj zMin zMax modelPose modelScale =
     (let upd = lambdaUpdatePt D zMin zMax modelPose modelScale;
          s0 = (scan0, []);
          s1 = (case oRST obj of None \<Rightarrow> s0
                | Some tris \<Rightarrow> (scan_triangles upd (fst s0) tris, snd s0 @ [Read_Triangles]));
          s2 = (case oRSTT obj of None \<Rightarrow> s1
                | Some tris \<Rightarrow> (scan_triangles upd (fst s1) tris, snd s1 @ [Read_TexturedTriangles]));
          s3 = (case oRP obj of None \<Rightarrow> s2
                | Some pts \<Rightarrow> (scan_points upd (fst s2) pts, snd s2 @ [Read_Points]));
          s4 = (case oRSWF obj of None \<Rightarrow> s3
                | Some pts \<Rightarrow> (scan_points upd (fst s3) pts, snd s3 @ [Read_Wireframe]))
      in if MRPT_VERSION D \<ge> 0x260
         then (case oAssimp obj of None \<Rightarrow> s4
               | Some txtrdObjs \<Rightarrow> scan_textured upd 0 s4 txtrdObjs)
         else s4)"

subsection \<open>\<^verbatim>\<open>CollisionShapeCache::get\<close>\<close>

text \<open>
  The result of a call: the shape returned or the exception thrown, the cache
  after the call, and the calls made on the visual object. The placeholder of
  line 37 is entered in the cache before the buffers are read, and line 130
  assigns the hull through the reference \<^verbatim>\<open>ret\<close>: into the placeholder when
  a model file was given, into the local \<^verbatim>\<open>retVal\<close> otherwise. The throw of
  line 146 comes after that assignment. The test of line 144 is
  \<^verbatim>\<open>vol < 1e-8\<close> on \<^verbatim>\<open>double\<close> values; no \<^verbatim>\<open>double\<close> lies between the literal
  and \<open>10\<^sup>-\<^sup>8\<close>.
\<close>

definition get ::
  "('p, 's) deps \<Rightarrow> 's cache \<Rightarrow> CRenderizable \<Rightarrow> ieee \<Rightarrow> ieee \<Rightarrow> 'p \<Rightarrow> ieee \<Rightarrow> string option
     \<Rightarrow> (error + 's) \<times> 's cache \<times> access list" where
  "get D cache obj zMin zMax modelPose modelScale modelFile =
     (case (case modelFile of None \<Rightarrow> None | Some k \<Rightarrow> cache k) of
        Some it \<Rightarrow> (Inr (convexHull it), cache, [])
      | None \<Rightarrow>
         (let cache1 = (case modelFile of None \<Rightarrow> cache
                        | Some k \<Rightarrow> cache(k \<mapsto> \<lparr>convexHull = Shape2p5_new D\<rparr>));
              upds = update_buffers obj;
              (st, reads) = slice_buffers D obj zMin zMax modelPose modelScale;
              ret = CreateConvexHullFromPoints D (allPts st);
              cache2 = (case modelFile of None \<Rightarrow> cache1
                        | Some k \<Rightarrow> cache1(k \<mapsto> \<lparr>convexHull = ret\<rparr>));
              vol = volume D ret
          in if ieee_less vol (Finite (1 / 10 ^ 8))
             then (Inl (NullVolume (case modelFile of None \<Rightarrow> ''none'' | Some k \<Rightarrow> k) vol),
                   cache2, upds @ reads)
             else (Inr ret, cache2, upds @ reads)))"

text \<open>The three components of a call's outcome.\<close>

definition outcome :: "(error + 's) \<times> 's cache \<times> access list \<Rightarrow> error + 's" where
  "outcome r = fst r"

definition cache_after :: "(error + 's) \<times> 's cache \<times> access list \<Rightarrow> 's cache" where
  "cache_after r = fst (snd r)"

definition accesses :: "(error + 's) \<times> 's cache \<times> access list \<Rightarrow> access list" where
  "accesses r = snd (snd r)"

text \<open>
  A later call is given by its arguments; \<open>cache_after_calls\<close> is the cache
  left by a sequence of calls, whatever their arguments and results.
\<close>

type_synonym 'p call = "CRenderizable \<times> ieee \<times> ieee \<times> 'p \<times> ieee \<times> string option"

fun get_call ::
  "('p, 's) deps \<Rightarrow> 's cache \<Rightarrow> 'p call \<Rightarrow> (error + 's) \<times> 's cache \<times> access list" where
  "get_call D cache (obj, zMin, zMax, modelPose, modelScale, modelFile) =
     get D cache obj zMin zMax modelPose modelScale modelFile"

definition cache_after_calls :: "('p, 's) deps \<Rightarrow> 's cache \<Rightarrow> 'p call list \<Rightarrow> 's cache" where
  "cache_after_calls D cache cs = foldl (\<lambda>c call. cache_after (get_call D c call)) cache cs"

subsection \<open>The vertices of an object and the points of a slice, as the specification words them\<close>

text \<open>
  Every vertex of every buffer that the object exposes, in the order of the
  traversal. A vertex is placed by the product with the scale and the
  composition with the pose, as the library computes them. The band of the
  specification keeps a height \<open>z\<close> with \<^verbatim>\<open>zMin <= z <= zMax\<close>
  (\<open>in_band\<close>); the test of the code keeps the heights that are neither
  below \<open>zMin\<close> nor above \<open>zMax\<close> (\<open>surviving\<close>).
\<close>

definition textured_vertices :: "triangle list option list \<Rightarrow> TPoint3Df list" where
  "textured_vertices subs =
     concat (map (\<lambda>sub. case sub of None \<Rightarrow> [] | Some tris \<Rightarrow> concat (map tri_vertices tris)) subs)"

definition buffer_vertices :: "('p, 's) deps \<Rightarrow> CRenderizable \<Rightarrow> TPoint3Df list" where
  "buffer_vertices D obj =
     (case oRST obj of None \<Rightarrow> [] | Some tris \<Rightarrow> concat (map tri_vertices tris)) @
     (case oRSTT obj of None \<Rightarrow> [] | Some tris \<Rightarrow> concat (map tri_vertices tris)) @
     (case oRP obj of None \<Rightarrow> [] | Some pts \<Rightarrow> pts) @
     (case oRSWF obj of None \<Rightarrow> [] | Some pts \<Rightarrow> pts) @
     (if MRPT_VERSION D \<ge> 0x260
      then (case oAssimp obj of None \<Rightarrow> [] | Some subs \<Rightarrow> textured_vertices subs)
      else [])"

definition placed :: "('p, 's) deps \<Rightarrow> 'p \<Rightarrow> ieee \<Rightarrow> TPoint3Df \<Rightarrow> TPoint3Df" where
  "placed D modelPose modelScale v = composePoint D modelPose (times_scalar D v modelScale)"

definition in_band :: "ieee \<Rightarrow> ieee \<Rightarrow> TPoint3Df \<Rightarrow> bool" where
  "in_band zMin zMax pt \<longleftrightarrow> ieee_le zMin (pt_z pt) \<and> ieee_le (pt_z pt) zMax"

definition passes :: "ieee \<Rightarrow> ieee \<Rightarrow> TPoint3Df \<Rightarrow> bool" where
  "passes zMin zMax pt \<longleftrightarrow> \<not> ieee_less (pt_z pt) zMin \<and> \<not> ieee_less zMax (pt_z pt)"

definition surviving ::
  "('p, 's) deps \<Rightarrow> ieee \<Rightarrow> ieee \<Rightarrow> 'p \<Rightarrow> ieee \<Rightarrow> TPoint3Df list \<Rightarrow> TPoint3Df list" where
  "surviving D zMin zMax modelPose modelScale vs =
     filter (passes zMin zMax) (map (placed D modelPose modelScale) vs)"

section \<open>The 2.5D shape\<close>

text \<open>
  \<^verbatim>\<open>Shape2p5\<close> is declared in \<^verbatim>\<open>CollisionShapeCache.h\<close> and defined in
  \<^verbatim>\<open>Shape2p5.cpp\<close>; neither file is among the sources at hand. The definitions
  of this section follow the specification: a shape is an ordered convex
  polygon with a height band and a derived volume, and
  \<^verbatim>\<open>CreateConvexHullFromPoints\<close> computes the convex hull of the projected
  points. The call in \<^verbatim>\<open>get\<close> passes the points only. Which band a shape built
  from points alone carries, the specification does not say: the band is a
  function \<open>band\<close> of the points, left open. Nor does it say how a coordinate
  that is not finite is read as a number of the plane: the reading \<open>num\<close> of
  a coordinate is left open as well.
\<close>

type_synonym TPoint2D = "real \<times> real"

text \<open>
  Modelled from the spec: the class \<^verbatim>\<open>Shape2p5\<close>, declared in
  \<^verbatim>\<open>CollisionShapeCache.h\<close>, which is not among the sources: an ordered convex
  polygon and the height band it was extruded from. (\<^verbatim>\<open>get\<close> reads the member
  \<^verbatim>\<open>contour\<close> in a print that is compiled out.)
\<close>

record Shape2p5 =
  contour :: "TPoint2D list"
  shape_zMin :: real
  shape_zMax :: real

text \<open>
  \<open>orient a b c\<close> is twice the signed area of the triangle \<open>a b c\<close>: positive
  when \<open>c\<close> is on the left of the directed line from \<open>a\<close> to \<open>b\<close>, zero when
  the three points are on one line. For \<open>r\<close> on the line through \<open>a\<close> and
  \<open>q\<close>, \<open>on_span a r q\<close> says that \<open>r\<close> is on the segment from \<open>a\<close> to \<open>q\<close>.
\<close>

definition orient :: "TPoint2D \<Rightarrow> TPoint2D \<Rightarrow> TPoint2D \<Rightarrow> real" where
  "orient a b c = (fst b - fst a) * (snd c - snd a) - (snd b - snd a) * (fst c - fst a)"

definition on_span :: "TPoint2D \<Rightarrow> TPoint2D \<Rightarrow> TPoint2D \<Rightarrow> bool" where
  "on_span a r q \<longleftrightarrow>
     0 \<le> (fst r - fst a) * (fst q - fst r) + (snd r - snd a) * (snd q - snd r)"

text \<open>
  The directed segment from \<open>a\<close> to \<open>q\<close> is an edge of the hull of \<open>P\<close> when
  it keeps every point \<open>r\<close> of \<open>P\<close>: \<open>r\<close> is on its left, or on its line
  and between \<open>a\<close> and \<open>q\<close>.
\<close>

definition keeps :: "TPoint2D \<Rightarrow> TPoint2D \<Rightarrow> TPoint2D \<Rightarrow> bool" where
  "keeps a q r \<longleftrightarrow> 0 < orient a q r \<or> (orient a q r = 0 \<and> on_span a r q)"

definition hull_edge :: "TPoint2D list \<Rightarrow> TPoint2D \<Rightarrow> TPoint2D \<Rightarrow> bool" where
  "hull_edge P a q \<longleftrightarrow> q \<noteq> a \<and> list_all (keeps a q) P"

text \<open>The leftmost point, the lowest one among the leftmost.\<close>

fun leftmost :: "TPoint2D \<Rightarrow> TPoint2D list \<Rightarrow> TPoint2D" where
  "leftmost p [] = p"
| "leftmost p (q # qs) =
     leftmost (if fst q < fst p \<or> (fst q = fst p \<and> snd q < snd p) then q else p) qs"

text \<open>
  The walk around the hull, counterclockwise from the vertex \<open>a\<close>: each step
  takes the hull edge that leaves the current vertex, until the walk is back
  at \<open>p0\<close>. The first argument bounds the number of steps.
\<close>

fun wrap :: "nat \<Rightarrow> TPoint2D list \<Rightarrow> TPoint2D \<Rightarrow> TPoint2D \<Rightarrow> TPoint2D list option" where
  "wrap 0 P p0 a = None"
| "wrap (Suc n) P p0 a =
     (case find (hull_edge P a) P of
        None \<Rightarrow> None
      | Some q \<Rightarrow> if q = p0 then Some [a] else map_option ((#) a) (wrap n P p0 q))"

text \<open>
  Modelled from the spec: the convex hull that
  \<^verbatim>\<open>Shape2p5::CreateConvexHullFromPoints\<close> computes; its code is not among the
  sources. The hull is the walk from the leftmost point. A hull of \<open>n\<close>
  points has at most \<open>n\<close> vertices, so \<open>n\<close> steps are enough for the walk to
  close (lemma \<open>convex_hull_walk\<close> below). Points that are all equal have no
  edge: their hull is the single point (lemma \<open>convex_hull_single\<close>).
\<close>

definition convex_hull :: "TPoint2D list \<Rightarrow> TPoint2D list" where
  "convex_hull P =
     (case P of
        [] \<Rightarrow> []
      | p # ps \<Rightarrow>
          (let p0 = leftmost p ps
           in case wrap (length P) P p0 p0 of None \<Rightarrow> [p0] | Some ch \<Rightarrow> ch))"

text \<open>The edges of a closed polygon, and its signed area.\<close>

definition edges :: "TPoint2D list \<Rightarrow> (TPoint2D \<times> TPoint2D) list" where
  "edges C = zip C (rotate1 C)"

definition signedArea :: "TPoint2D list \<Rightarrow> real" where
  "signedArea C = (\<Sum>(a, b) \<leftarrow> edges C. fst a * snd b - fst b * snd a) / 2"

text \<open>
  Modelled from the spec: the default constructor of \<^verbatim>\<open>Shape2p5\<close>, whose code
  is not among the sources: no contour and a band of height zero.
\<close>

definition Shape2p5_empty :: Shape2p5 where
  "Shape2p5_empty = \<lparr>contour = [], shape_zMin = 0, shape_zMax = 0\<rparr>"

text \<open>The projection of a point to the plane, under a reading of its coordinates.\<close>

definition project :: "(ieee \<Rightarrow> real) \<Rightarrow> TPoint3Df \<Rightarrow> TPoint2D" where
  "project num q = (num (pt_x q), num (pt_y q))"

text \<open>
  Modelled from the spec: \<^verbatim>\<open>Shape2p5::CreateConvexHullFromPoints\<close>, whose code is
  not among the sources: the convex hull of the projected points, with a band
  that is a function of the points.
\<close>

definition Shape2p5_CreateConvexHullFromPoints ::
  "(ieee \<Rightarrow> real) \<Rightarrow> (TPoint3Df list \<Rightarrow> real \<times> real) \<Rightarrow> TPoint3Df list \<Rightarrow> Shape2p5" where
  "Shape2p5_CreateConvexHullFromPoints num band pts =
     \<lparr>contour = convex_hull (map (project num) pts),
      shape_zMin = fst (band pts), shape_zMax = snd (band pts)\<rparr>"

text \<open>
  Modelled from the spec: the measure \<^verbatim>\<open>Shape2p5::volume\<close>, whose code is not
  among the sources: the area of the polygon times the height of the band.
\<close>

definition Shape2p5_volume :: "Shape2p5 \<Rightarrow> ieee" where
  "Shape2p5_volume s = Finite (\<bar>signedArea (contour s)\<bar> * \<bar>shape_zMin s - shape_zMax s\<bar>)"

text \<open>
  The parameters of \<open>get\<close> with this shape; the MRPT version, the arithmetic
  of the library, the reading of a coordinate and the band stay open.
\<close>

definition modelled_deps ::
  "nat \<Rightarrow> (TPoint3Df \<Rightarrow> ieee \<Rightarrow> TPoint3Df) \<Rightarrow> ('p \<Rightarrow> TPoint3Df \<Rightarrow> TPoint3Df) \<Rightarrow> (ieee \<Rightarrow> real)
     \<Rightarrow> (TPoint3Df list \<Rightarrow> real \<times> real) \<Rightarrow> ('p, Shape2p5) deps" where
  "modelled_deps ver scale compose num band =
     \<lparr>MRPT_VERSION = ver, times_scalar = scale, composePoint = compose,
      Shape2p5_new = Shape2p5_empty,
      CreateConvexHullFromPoints = Shape2p5_CreateConvexHullFromPoints num band,
      volume = Shape2p5_volume\<rparr>"

text \<open>
  A point is in a counterclockwise polygon when it is on the right of no
  edge. A convex polygon has at least three vertices, all different, a
  positive area with its vertices in counterclockwise order, and no vertex on
  the right of an edge. An empty contour, a single point and points on one
  line are no convex polygon.
\<close>

definition inside :: "TPoint2D list \<Rightarrow> TPoint2D \<Rightarrow> bool" where
  "inside C r \<longleftrightarrow> list_all (\<lambda>(a, b). 0 \<le> orient a b r) (edges C)"

definition convex_polygon :: "TPoint2D list \<Rightarrow> bool" where
  "convex_polygon C \<longleftrightarrow>
     3 \<le> length C \<and> distinct C \<and> 0 < signedArea C \<and> list_all (inside C) C"

text \<open>
  An entry of the cache that a successful call has stored: its shape was
  built from points and passed the test of the volume.
\<close>

definition stored_by_success ::
  "(ieee \<Rightarrow> real) \<Rightarrow> (TPoint3Df list \<Rightarrow> real \<times> real) \<Rightarrow> TPoint3Df list \<Rightarrow> Shape2p5 Entry \<Rightarrow> bool"
  where
  "stored_by_success num band pts it \<longleftrightarrow>
     convexHull it = Shape2p5_CreateConvexHullFromPoints num band pts \<and>
     \<not> ieee_less (Shape2p5_volume (convexHull it)) (Finite (1 / 10 ^ 8))"

text \<open>
  For the proof that the walk closes: the vertex \<open>a\<close> is supported in the
  direction of \<open>b\<close> when every point is on the left of the ray from \<open>a\<close>
  through \<open>b\<close>, or on its line and not ahead of \<open>a\<close>.
\<close>

definition behind :: "TPoint2D \<Rightarrow> TPoint2D \<Rightarrow> TPoint2D \<Rightarrow> bool" where
  "behind a b r \<longleftrightarrow>
     0 < orient a b r \<or>
     (orient a b r = 0 \<and>
      (fst r - fst a) * (fst b - fst a) + (snd r - snd a) * (snd b - snd a) \<le> 0)"

definition supported :: "TPoint2D list \<Rightarrow> TPoint2D \<Rightarrow> TPoint2D \<Rightarrow> bool" where
  "supported P a b \<longleftrightarrow> b \<noteq> a \<and> list_all (behind a b) P"

subsection \<open>Concrete inputs\<close>

text \<open>
  For the examples, the arithmetic of the library on the values that the
  examples use. The finite values of the examples are small multiples of
  powers of two, whose products and sums are floats again, so that the exact
  product and the exact sum are the ones of IEEE 754 there; not-a-number
  stays not-a-number. Other operands do not occur in the examples and give
  not-a-number here.
\<close>

fun example_times :: "ieee \<Rightarrow> ieee \<Rightarrow> ieee" where
  "example_times (Finite a) (Finite b) = Finite (a * b)"
| "example_times a b = NaN"

fun example_plus :: "ieee \<Rightarrow> ieee \<Rightarrow> ieee" where
  "example_plus (Finite a) (Finite b) = Finite (a + b)"
| "example_plus a b = NaN"

definition example_scale :: "TPoint3Df \<Rightarrow> ieee \<Rightarrow> TPoint3Df" where
  "example_scale p s =
     \<lparr>pt_x = example_times (pt_x p) s, pt_y = example_times (pt_y p) s,
      pt_z = example_times (pt_z p) s\<rparr>"

text \<open>A pose without rotation, given by its translation.\<close>

definition translate :: "TPoint3Df \<Rightarrow> TPoint3Df \<Rightarrow> TPoint3Df" where
  "translate t p =
     \<lparr>pt_x = example_plus (pt_x p) (pt_x t), pt_y = example_plus (pt_y p) (pt_y t),
      pt_z = example_plus (pt_z p) (pt_z t)\<rparr>"

text \<open>
  The reading of a coordinate and the band of the examples: a finite value
  is read as itself, and the band of a shape is the range of the heights of
  its points.
\<close>

fun example_num :: "ieee \<Rightarrow> real" where
  "example_num (Finite a) = a"
| "example_num a = 0"

fun heights_range :: "TPoint3Df list \<Rightarrow> real \<times> real" where
  "heights_range [] = (0, 0)"
| "heights_range (p # ps) =
     (fold min (map (\<lambda>q. example_num (pt_z q)) ps) (example_num (pt_z p)),
      fold max (map (\<lambda>q. example_num (pt_z q)) ps) (example_num (pt_z p)))"

text \<open>
  A point with finite coordinates, and a visual object that exposes one
  buffer of points.
\<close>

definition pt3 :: "real \<Rightarrow> real \<Rightarrow> real \<Rightarrow> TPoint3Df" where
  "pt3 a b c = \<lparr>pt_x = Finite a, pt_y = Finite b, pt_z = Finite c\<rparr>"

definition points_object :: "TPoint3Df list \<Rightarrow> CRenderizable" where
  "points_object pts =
     \<lparr>oAssimp = None, oRSWF = None, oRST = None, oRSTT = None, oRP = Some pts\<rparr>"

definition example_deps :: "(TPoint3Df, Shape2p5) deps" where
  "example_deps = modelled_deps 0x260 example_scale translate example_num heights_range"

definition unit_box :: CRenderizable where
  "unit_box = points_object
     [pt3 0 0 0, pt3 1 0 0, pt3 1 1 0, pt3 0 1 0, pt3 0 0 1, pt3 1 0 1, pt3 1 1 1, pt3 0 1 1]"

definition unit_square_shape :: Shape2p5 where
  "unit_square_shape =
     \<lparr>contour = [(0, 0), (1, 0), (1, 1), (0, 1)], shape_zMin = 0, shape_zMax = 1\<rparr>"

text \<open>
  A block in two levels: a small square at the heights \<open>1/4\<close> and \<open>1/2\<close>
  under a large square at the height \<open>7/8\<close>.
\<close>

definition stepped_block :: CRenderizable where
  "stepped_block = points_object
     [pt3 0 0 (1/4), pt3 1 0 (1/4), pt3 1 1 (1/2), pt3 0 1 (1/2),
      pt3 0 0 (7/8), pt3 3 0 (7/8), pt3 3 3 (7/8), pt3 0 3 (7/8)]"

text \<open>
  An object that is of every class that \<open>get\<close> asks for: a triangle in each
  buffer of triangles, points in each buffer of points, and two sub-objects,
  the first of them a null pointer. And a point whose height is not a number.
\<close>

definition mixed_object :: CRenderizable where
  "mixed_object =
     \<lparr>oAssimp = Some [None, Some [(pt3 4 0 0, pt3 4 1 (1/4), pt3 4 2 (1/2))]],
      oRSWF = Some [pt3 3 0 (1/8)],
      oRST = Some [(pt3 0 0 0, pt3 0 1 (1/4), pt3 0 2 (1/2))],
      oRSTT = Some [(pt3 1 0 (-1/2), pt3 1 1 (1/8), pt3 1 2 1)],
      oRP = Some [pt3 2 0 (1/4), pt3 2 1 (3/8), pt3 2 2 (1/2)]\<rparr>"

definition nan_point :: TPoint3Df where
  "nan_point = \<lparr>pt_x = Finite 0, pt_y = Finite 0, pt_z = NaN\<rparr>"

text \<open>A contour with every coordinate multiplied by a factor.\<close>

fun scale_contour :: "real \<Rightarrow> TPoint2D list \<Rightarrow> TPoint2D list" where
  "scale_contour f [] = []"
| "scale_contour f ((a, b) # C) = (f * a, f * b) # scale_contour f C"

section \<open>Vehicles (VehicleBase.h)\<close>

text \<open>
  The header declares the members of \<^verbatim>\<open>VehicleBase\<close> and defines its short
  methods in place. The map \<^verbatim>\<open>loggers_\<close> is given by its entries, a null
  \<^verbatim>\<open>shared_ptr\<close> being \<open>None\<close>; \<open>map_of\<close> looks a name up, and the order of
  the entries plays no role. The type \<open>'l\<close> is that of the logger a pointer
  refers to. Undefined behaviour of the C++ code (an index out of range, a
  null pointer dereferenced) is a fault of the model.
\<close>

datatype fault = OutOfRange | NullPointer | DegenerateShape

text \<open>
  Modelled from the spec: the class \<^verbatim>\<open>Wheel\<close> of \<^verbatim>\<open>Wheel.h\<close>, which is not among
  the sources: the geometry of a wheel (offsets from the chassis reference,
  radius, width, steerable flag) and its state (spin velocity, torque applied
  last).
\<close>

record Wheel =
  wheel_x :: real
  wheel_y :: real
  wheel_radius :: real
  wheel_width :: real
  steerable :: bool
  spin_velocity :: real
  applied_torque :: real

definition Wheel_new :: Wheel where
  "Wheel_new = \<lparr>wheel_x = 0, wheel_y = 0, wheel_radius = 0, wheel_width = 0,
     steerable = False, spin_velocity = 0, applied_torque = 0\<rparr>"

text \<open>
  The members that the claims are about, with the pose and the velocity that
  the base class \<^verbatim>\<open>Simulable\<close> keeps as ground truth.
\<close>

record 'l VehicleBase =
  loggers :: "(string \<times> 'l option) list"
  wheels_info :: "Wheel list"
  vehicle_index :: nat
  fixture_chassis :: "nat option"
  fixture_wheels :: "nat option list"
  true_pose :: "real \<times> real \<times> real"
  true_velocity :: "real \<times> real \<times> real"

subsection \<open>Methods defined in the header\<close>

definition getNumWheels :: "'l VehicleBase \<Rightarrow> nat" where
  "getNumWheels v = length (wheels_info v)"

text \<open>
  \<^verbatim>\<open>getWheelInfo\<close> indexes the deque without a check. Its second overload
  returns a reference, through which the caller may assign the wheel:
  \<open>putWheelInfo\<close>.
\<close>

definition getWheelInfo :: "'l VehicleBase \<Rightarrow> nat \<Rightarrow> fault + Wheel" where
  "getWheelInfo v idx =
     (if idx < length (wheels_info v) then Inr (wheels_info v ! idx) else Inl OutOfRange)"

definition putWheelInfo :: "'l VehicleBase \<Rightarrow> nat \<Rightarrow> Wheel \<Rightarrow> fault + 'l VehicleBase" where
  "putWheelInfo v idx w =
     (if idx < length (wheels_info v)
      then Inr (v\<lparr>wheels_info := (wheels_info v)[idx := w]\<rparr>)
      else Inl OutOfRange)"

text \<open>
  \<^verbatim>\<open>getLoggerPtr\<close> returns \<^verbatim>\<open>loggers_[logger_name]\<close>: the subscript of a
  \<^verbatim>\<open>std::map\<close> enters a value-initialised element for a key that is absent.
\<close>

definition getLoggerPtr :: "'l VehicleBase \<Rightarrow> string \<Rightarrow> 'l option \<times> 'l VehicleBase" where
  "getLoggerPtr v logger_name =
     (case map_of (loggers v) logger_name of
        Some ptr \<Rightarrow> (ptr, v)
      | None \<Rightarrow> (None, v\<lparr>loggers := loggers v @ [(logger_name, None)]\<rparr>))"

definition setVehicleIndex :: "'l VehicleBase \<Rightarrow> nat \<Rightarrow> 'l VehicleBase" where
  "setVehicleIndex v idx = v\<lparr>vehicle_index := idx\<rparr>"

text \<open>
  \<^verbatim>\<open>setRecording\<close>, \<^verbatim>\<open>clearLogs\<close> and \<^verbatim>\<open>newLogSession\<close> call a method of
  \<^verbatim>\<open>CSVLogger\<close> through every pointer of the map. The methods of the logger
  are parameters.
\<close>

record 'l CSVLogger_methods =
  CSVLogger_setRecording :: "bool \<Rightarrow> 'l \<Rightarrow> 'l"
  CSVLogger_clear :: "'l \<Rightarrow> 'l"
  CSVLogger_newSession :: "'l \<Rightarrow> 'l"
  CSVLogger_writeRow :: "'l \<Rightarrow> 'l"

fun each_logger ::
  "('l \<Rightarrow> 'l) \<Rightarrow> (string \<times> 'l option) list \<Rightarrow> fault + (string \<times> 'l option) list" where
  "each_logger f [] = Inr []"
| "each_logger f ((name, None) # rest) = Inl NullPointer"
| "each_logger f ((name, Some l) # rest) =
     (case each_logger f rest of
        Inl e \<Rightarrow> Inl e
      | Inr rest' \<Rightarrow> Inr ((name, Some (f l)) # rest'))"

definition with_loggers :: "('l \<Rightarrow> 'l) \<Rightarrow> 'l VehicleBase \<Rightarrow> fault + 'l VehicleBase" where
  "with_loggers f v =
     (case each_logger f (loggers v) of
        Inl e \<Rightarrow> Inl e
      | Inr ls \<Rightarrow> Inr (v\<lparr>loggers := ls\<rparr>))"

definition setRecording ::
  "'l CSVLogger_methods \<Rightarrow> 'l VehicleBase \<Rightarrow> bool \<Rightarrow> fault + 'l VehicleBase" where
  "setRecording M v record = with_loggers (CSVLogger_setRecording M record) v"

definition clearLogs :: "'l CSVLogger_methods \<Rightarrow> 'l VehicleBase \<Rightarrow> fault + 'l VehicleBase" where
  "clearLogs M v = with_loggers (CSVLogger_clear M) v"

definition newLogSession :: "'l CSVLogger_methods \<Rightarrow> 'l VehicleBase \<Rightarrow> fault + 'l VehicleBase" where
  "newLogSession M v = with_loggers (CSVLogger_newSession M) v"

subsection \<open>Methods declared in the header only\<close>

text \<open>
  Modelled from the spec: the constructor \<^verbatim>\<open>VehicleBase(parent, nWheels)\<close> of
  \<^verbatim>\<open>VehicleBase.cpp\<close>, which is not among the sources. The comments of the
  header say that the sizes of \<^verbatim>\<open>wheels_info_\<close> and of \<^verbatim>\<open>fixture_wheels_\<close> are set
  by the constructor; the other members have their default values.
\<close>

definition VehicleBase_new :: "nat \<Rightarrow> 'l VehicleBase" where
  "VehicleBase_new nWheels =
     \<lparr>loggers = [], wheels_info = replicate nWheels Wheel_new, vehicle_index = 0,
      fixture_chassis = None, fixture_wheels = replicate nWheels None,
      true_pose = (0, 0, 0), true_velocity = (0, 0, 0)\<rparr>"

text \<open>
  Modelled from the spec: \<^verbatim>\<open>simul_pre_timestep\<close> of \<^verbatim>\<open>VehicleBase.cpp\<close>, which is
  not among the sources. The motor controller gives a torque for each wheel
  (\<open>torques i\<close> for the wheel \<open>i\<close>); the forces go to the bodies of the
  physics engine, and each wheel keeps the torque applied to it.
\<close>

definition simul_pre_timestep :: "(nat \<Rightarrow> real) \<Rightarrow> 'l VehicleBase \<Rightarrow> 'l VehicleBase" where
  "simul_pre_timestep torques v =
     v\<lparr>wheels_info :=
         map (\<lambda>(i, w). w\<lparr>applied_torque := torques i\<rparr>) (enumerate 0 (wheels_info v))\<rparr>"

text \<open>
  Modelled from the spec: \<^verbatim>\<open>simul_post_timestep\<close> of \<^verbatim>\<open>VehicleBase.cpp\<close>, which
  is not among the sources. The pose and the velocity of the body are read
  back from the physics engine, the spin velocity of each wheel is updated
  (\<open>spins i\<close> for the wheel \<open>i\<close>), and every logger that is there gets a row.
\<close>

definition simul_post_timestep ::
  "'l CSVLogger_methods \<Rightarrow> real \<times> real \<times> real \<Rightarrow> real \<times> real \<times> real \<Rightarrow> (nat \<Rightarrow> real)
     \<Rightarrow> 'l VehicleBase \<Rightarrow> 'l VehicleBase" where
  "simul_post_timestep M pose vel spins v =
     v\<lparr>true_pose := pose, true_velocity := vel,
       wheels_info :=
         map (\<lambda>(i, w). w\<lparr>spin_velocity := spins i\<rparr>) (enumerate 0 (wheels_info v)),
       loggers := map (\<lambda>(name, ptr). (name, map_option (CSVLogger_writeRow M) ptr)) (loggers v)\<rparr>"

text \<open>
  Modelled from the spec: \<^verbatim>\<open>create_multibody_system\<close> of \<^verbatim>\<open>VehicleBase.cpp\<close>,
  which is not among the sources. It creates one body for the chassis and one
  fixture for each wheel (\<open>handle i\<close> is the fixture of the wheel \<open>i\<close>), and
  fails when a collision shape is degenerate.
\<close>

definition create_multibody_system ::
  "bool \<Rightarrow> nat \<Rightarrow> (nat \<Rightarrow> nat) \<Rightarrow> 'l VehicleBase \<Rightarrow> fault + 'l VehicleBase" where
  "create_multibody_system degenerate chassis handle v =
     (if degenerate then Inl DegenerateShape
      else Inr (v\<lparr>fixture_chassis := Some chassis,
                 fixture_wheels := map (\<lambda>i. Some (handle i)) [0..<length (wheels_info v)]\<rparr>))"

subsection \<open>The life of a vehicle\<close>

text \<open>
  The operations on a vehicle once it is constructed, and a run of them: a
  fault ends the run.
\<close>

datatype operation =
    PreStep "nat \<Rightarrow> real"
  | PostStep "real \<times> real \<times> real" "real \<times> real \<times> real" "nat \<Rightarrow> real"
  | CreateMultibody bool nat "nat \<Rightarrow> nat"
  | GetNumWheels
  | GetWheelInfo nat
  | PutWheelInfo nat Wheel
  | GetLoggerPtr string
  | SetVehicleIndex nat
  | SetRecording bool
  | ClearLogs
  | NewLogSession

fun apply_operation ::
  "'l CSVLogger_methods \<Rightarrow> 'l VehicleBase \<Rightarrow> operation \<Rightarrow> fault + 'l VehicleBase" where
  "apply_operation M v (PreStep torques) = Inr (simul_pre_timestep torques v)"
| "apply_operation M v (PostStep pose vel spins) = Inr (simul_post_timestep M pose vel spins v)"
| "apply_operation M v (CreateMultibody degenerate chassis handle) =
     create_multibody_system degenerate chassis handle v"
| "apply_operation M v GetNumWheels = Inr v"
| "apply_operation M v (GetWheelInfo idx) =
     (case getWheelInfo v idx of Inl e \<Rightarrow> Inl e | Inr w \<Rightarrow> Inr v)"
| "apply_operation M v (PutWheelInfo idx w) = putWheelInfo v idx w"
| "apply_operation M v (GetLoggerPtr logger_name) = Inr (snd (getLoggerPtr v logger_name))"
| "apply_operation M v (SetVehicleIndex idx) = Inr (setVehicleIndex v idx)"
| "apply_operation M v (SetRecording record) = setRecording M v record"
| "apply_operation M v ClearLogs = clearLogs M v"
| "apply_operation M v NewLogSession = newLogSession M v"

fun run :: "'l CSVLogger_methods \<Rightarrow> 'l VehicleBase \<Rightarrow> operation list \<Rightarrow> fault + 'l VehicleBase" where
  "run M v [] = Inr v"
| "run M v (op # ops) =
     (case apply_operation M v op of Inl e \<Rightarrow> Inl e | Inr v' \<Rightarrow> run M v' ops)"

text \<open>For the examples: a logger that counts the calls made on it.\<close>

definition counting_logger :: "nat CSVLogger_methods" where
  "counting_logger =
     \<lparr>CSVLogger_setRecording = (\<lambda>record n. n + 1), CSVLogger_clear = (\<lambda>n. n + 1),
      CSVLogger_newSession = (\<lambda>n. n + 1), CSVLogger_writeRow = (\<lambda>n. n + 1)\<rparr>"

definition example_operations :: "operation list" where
  "example_operations =
     [CreateMultibody False 7 Suc, SetRecording True, PreStep real,
      PostStep (1, 2, 3) (4, 5, 6) real, PutWheelInfo 1 Wheel_new, GetWheelInfo 0,
      GetNumWheels, SetVehicleIndex 3, NewLogSession, ClearLogs,
      GetLoggerPtr ''logger_pose'', PostStep (1, 2, 3) (4, 5, 6) real]"
section \<open>Properties of the collision shape cache\<close>

lemmas example_defs =
  example_deps_def modelled_deps_def translate_def example_scale_def pt3_def points_object_def
  unit_box_def get_def outcome_def cache_after_def accesses_def
  slice_buffers_def update_buffers_def scan_points_def scan_triangles_def scan0_def
  lambdaUpdatePt_def Let_def
  Shape2p5_CreateConvexHullFromPoints_def Shape2p5_empty_def Shape2p5_volume_def
  signedArea_def edges_def project_def convex_hull_def hull_edge_def keeps_def orient_def
  on_span_def

subsection \<open>Hits, misses and the entries of the cache\<close>

lemma get_hit:
  "cache k = Some it \<Longrightarrow>
   get D cache obj zMin zMax modelPose modelScale (Some k) = (Inr (convexHull it), cache, [])"
  by (simp add: get_def)

lemma get_miss_entry:
  "cache k = None \<Longrightarrow>
   cache_after (get D cache obj zMin zMax modelPose modelScale (Some k)) k =
     Some \<lparr>convexHull = CreateConvexHullFromPoints D
              (allPts (fst (slice_buffers D obj zMin zMax modelPose modelScale)))\<rparr>"
  by (simp add: get_def cache_after_def Let_def split: prod.splits)

lemma get_keeps_entry:
  "cache k = Some it \<Longrightarrow>
   cache_after (get D cache obj zMin zMax modelPose modelScale modelFile) k = Some it"
  by (cases modelFile; cases "cache (the modelFile)")
     (auto simp: get_def cache_after_def Let_def split: prod.splits)

lemma calls_keep_entry:
  "cache k = Some it \<Longrightarrow> cache_after_calls D cache cs k = Some it"
proof (induction cs arbitrary: cache)
  case Nil
  then show ?case by (simp add: cache_after_calls_def)
next
  case (Cons c cs)
  obtain obj zMin zMax modelPose modelScale modelFile
    where c: "c = (obj, zMin, zMax, modelPose, modelScale, modelFile)"
    by (cases c) auto
  have "cache_after (get_call D cache c) k = Some it"
    using Cons.prems by (simp add: c get_keeps_entry)
  then have "cache_after_calls D (cache_after (get_call D cache c)) cs k = Some it"
    by (rule Cons.IH)
  then show ?case by (simp add: cache_after_calls_def)
qed

lemma get_success_stored:
  assumes "get D cache obj zMin zMax modelPose modelScale (Some k) = (Inr sh, cache', tr)"
  shows "\<exists>it. cache' k = Some it \<and> convexHull it = sh"
proof (cases "cache k")
  case None
  with assms show ?thesis
    by (auto simp: get_def Let_def split: prod.splits if_splits)
next
  case (Some it)
  with assms show ?thesis by (simp add: get_def)
qed

lemma get_no_key:
  "get D cache obj zMin zMax modelPose modelScale None =
     (let (st, reads) = slice_buffers D obj zMin zMax modelPose modelScale;
          ret = CreateConvexHullFromPoints D (allPts st);
          vol = volume D ret
      in if ieee_less vol (Finite (1 / 10 ^ 8))
         then (Inl (NullVolume ''none'' vol), cache, update_buffers obj @ reads)
         else (Inr ret, cache, update_buffers obj @ reads))"
  by (simp add: get_def Let_def split: prod.splits)

subsection \<open>The traversal as a filter\<close>

lemma lambdaUpdatePt_allPts:
  "allPts (lambdaUpdatePt D zMin zMax modelPose modelScale st v) =
     allPts st @ surviving D zMin zMax modelPose modelScale [v]"
  by (simp add: lambdaUpdatePt_def surviving_def passes_def placed_def Let_def)

lemma lambdaUpdatePt_total:
  "numTotalPts (lambdaUpdatePt D zMin zMax modelPose modelScale st v) = numTotalPts st + 1"
  by (simp add: lambdaUpdatePt_def Let_def)

lemma lambdaUpdatePt_passed:
  "numPassedPts (lambdaUpdatePt D zMin zMax modelPose modelScale st v) =
     numPassedPts st + length (surviving D zMin zMax modelPose modelScale [v])"
  by (simp add: lambdaUpdatePt_def surviving_def passes_def placed_def Let_def)

lemma surviving_Cons:
  "surviving D zMin zMax modelPose modelScale (v # vs) =
     surviving D zMin zMax modelPose modelScale [v] @ surviving D zMin zMax modelPose modelScale vs"
  by (simp add: surviving_def)

lemma foldl_lambdaUpdatePt:
  "foldl (lambdaUpdatePt D zMin zMax modelPose modelScale) st vs =
     \<lparr>numTotalPts = numTotalPts st + length vs,
      numPassedPts = numPassedPts st + length (surviving D zMin zMax modelPose modelScale vs),
      allPts = allPts st @ surviving D zMin zMax modelPose modelScale vs\<rparr>"
proof (induction vs arbitrary: st)
  case Nil
  show ?case by (simp add: surviving_def)
next
  case (Cons v vs)
  show ?case
    unfolding foldl_Cons Cons.IH surviving_Cons [of _ _ _ _ _ v vs]
    by (simp add: lambdaUpdatePt_allPts lambdaUpdatePt_total lambdaUpdatePt_passed)
qed

lemma scan_triangles_flat:
  "scan_triangles upd st tris = foldl upd st (concat (map tri_vertices tris))"
  unfolding scan_triangles_def
  by (induction tris arbitrary: st) simp_all

lemma scan_textured_flat:
  "fst (scan_textured upd i (st, tr) subs) = foldl upd st (textured_vertices subs)"
proof (induction upd i "(st, tr)" subs arbitrary: st tr rule: scan_textured.induct)
  case (1 upd i st tr)
  show ?case by (simp add: textured_vertices_def)
next
  case (2 upd i st tr os)
  then show ?case by (simp add: textured_vertices_def)
next
  case (3 upd i st tr tris os)
  then show ?case by (simp add: textured_vertices_def scan_triangles_flat)
qed

lemma slice_buffers_flat:
  "fst (slice_buffers D obj zMin zMax modelPose modelScale) =
     foldl (lambdaUpdatePt D zMin zMax modelPose modelScale) scan0 (buffer_vertices D obj)"
  by (cases "oRST obj"; cases "oRSTT obj"; cases "oRP obj"; cases "oRSWF obj"; cases "oAssimp obj")
     (simp_all add: slice_buffers_def buffer_vertices_def Let_def scan_triangles_flat
        scan_points_def scan_textured_flat)

lemma slice_buffers_allPts:
  "allPts (fst (slice_buffers D obj zMin zMax modelPose modelScale)) =
     surviving D zMin zMax modelPose modelScale (buffer_vertices D obj)"
  by (simp add: slice_buffers_flat foldl_lambdaUpdatePt scan0_def)

lemma get_miss_outcome:
  assumes "modelFile = None \<or> (\<exists>k. modelFile = Some k \<and> cache k = None)"
  shows "outcome (get D cache obj zMin zMax modelPose modelScale modelFile) =
     (let ret = CreateConvexHullFromPoints D
                  (surviving D zMin zMax modelPose modelScale (buffer_vertices D obj));
          vol = volume D ret
      in if ieee_less vol (Finite (1 / 10 ^ 8))
         then Inl (NullVolume (case modelFile of None \<Rightarrow> ''none'' | Some k \<Rightarrow> k) vol)
         else Inr ret)"
  using assms
  by (auto simp: get_def outcome_def Let_def slice_buffers_allPts [symmetric] split: prod.splits)

lemma ieee_not_less: "a \<noteq> NaN \<Longrightarrow> b \<noteq> NaN \<Longrightarrow> \<not> ieee_less a b \<longleftrightarrow> ieee_le b a"
  by (cases a; cases b) auto

lemma passes_in_band:
  "zMin \<noteq> NaN \<Longrightarrow> zMax \<noteq> NaN \<Longrightarrow> pt_z pt \<noteq> NaN \<Longrightarrow>
   passes zMin zMax pt \<longleftrightarrow> in_band zMin zMax pt"
  by (simp add: passes_def in_band_def ieee_not_less)

lemma passes_NaN: "pt_z pt = NaN \<Longrightarrow> passes zMin zMax pt \<and> \<not> in_band zMin zMax pt"
  by (cases zMin; cases zMax) (simp_all add: passes_def in_band_def)

subsection \<open>Memoization\<close>

text \<open>
  Claim C1. When a call of \<open>get\<close> with a model file succeeds, the cache it
  leaves holds the returned shape under that key. After any further calls of
  \<open>get\<close>, a call with the same key and the same arguments returns the same
  shape (hence the same contour and the same volume), leaves the cache as it
  is, and makes no call on the visual object: no buffer is updated or read.
\<close>

theorem get_memoizes:
  assumes "get D cache obj zMin zMax modelPose modelScale (Some k) = (Inr sh, cache', tr)"
  shows "(\<exists>it. cache' k = Some it \<and> convexHull it = sh) \<and>
         get D (cache_after_calls D cache' cs) obj zMin zMax modelPose modelScale (Some k) =
           (Inr sh, cache_after_calls D cache' cs, [])"
proof -
  from get_success_stored [OF assms] obtain it where it: "cache' k = Some it" "convexHull it = sh"
    by blast
  have "cache_after_calls D cache' cs k = Some it" using it(1) by (rule calls_keep_entry)
  then show ?thesis using it by (simp add: get_hit)
qed

theorem get_memoizes_witness:
  "get example_deps Map.empty unit_box (Finite 0) (Finite 1) (pt3 0 0 0) (Finite 1)
       (Some ''box.dae'') =
     (Inr unit_square_shape, [''box.dae'' \<mapsto> \<lparr>convexHull = unit_square_shape\<rparr>],
      [OnUpdateBuffers_Points, Read_Points])
   \<and> get example_deps
       (cache_after_calls example_deps [''box.dae'' \<mapsto> \<lparr>convexHull = unit_square_shape\<rparr>]
          [(stepped_block, Finite 0, Finite 1, pt3 0 0 0, Finite 2, Some ''block.dae''),
           (unit_box, Finite 5, Finite 6, pt3 0 0 0, Finite 1, None)])
       unit_box (Finite 0) (Finite 1) (pt3 0 0 0) (Finite 1) (Some ''box.dae'') =
     (Inr unit_square_shape,
      cache_after_calls example_deps [''box.dae'' \<mapsto> \<lparr>convexHull = unit_square_shape\<rparr>]
          [(stepped_block, Finite 0, Finite 1, pt3 0 0 0, Finite 2, Some ''block.dae''),
           (unit_box, Finite 5, Finite 6, pt3 0 0 0, Finite 1, None)],
      [])"
proof -
  have first: "get example_deps Map.empty unit_box (Finite 0) (Finite 1) (pt3 0 0 0) (Finite 1)
       (Some ''box.dae'') =
     (Inr unit_square_shape, [''box.dae'' \<mapsto> \<lparr>convexHull = unit_square_shape\<rparr>],
      [OnUpdateBuffers_Points, Read_Points])"
    by (simp add: example_defs unit_square_shape_def)
  from get_memoizes [OF first] first show ?thesis by blast
qed

text \<open>
  Claim C4. A key that is in the cache is answered from the cache whatever the
  other arguments are: the call returns the shape of the entry, without error,
  leaves the cache as it is and makes no call on the visual object. So after a
  first call with a key that was absent, a call with the same key and any
  object, band, pose and scale returns the shape computed by the first call.
\<close>

theorem get_cached_any_arguments:
  "(cache k = Some it \<longrightarrow>
      get D cache obj zMin zMax modelPose modelScale (Some k) = (Inr (convexHull it), cache, []))
   \<and> (cache k = None \<longrightarrow>
      get D (cache_after (get D cache obj zMin zMax modelPose modelScale (Some k)))
          obj' zMin' zMax' modelPose' modelScale' (Some k) =
        (Inr (CreateConvexHullFromPoints D
                (allPts (fst (slice_buffers D obj zMin zMax modelPose modelScale)))),
         cache_after (get D cache obj zMin zMax modelPose modelScale (Some k)), []))"
  using get_miss_entry [of cache k D obj zMin zMax modelPose modelScale]
  by (auto simp: get_hit)

theorem get_cached_any_arguments_witness:
  "[''box.dae'' \<mapsto> \<lparr>convexHull = unit_square_shape\<rparr>] ''box.dae'' =
      Some \<lparr>convexHull = unit_square_shape\<rparr>
   \<and> get example_deps [''box.dae'' \<mapsto> \<lparr>convexHull = unit_square_shape\<rparr>]
        stepped_block (Finite 5) (Finite 6) (pt3 1 2 3) (Finite 7) (Some ''box.dae'') =
      (Inr unit_square_shape, [''box.dae'' \<mapsto> \<lparr>convexHull = unit_square_shape\<rparr>], [])
   \<and> (Map.empty :: Shape2p5 cache) ''box.dae'' = None
   \<and> get example_deps
        (cache_after (get example_deps Map.empty unit_box (Finite 0) (Finite 1) (pt3 0 0 0)
           (Finite 1) (Some ''box.dae'')))
        stepped_block (Finite 5) (Finite 6) (pt3 1 2 3) (Finite 7) (Some ''box.dae'') =
      (Inr unit_square_shape,
       cache_after (get example_deps Map.empty unit_box (Finite 0) (Finite 1) (pt3 0 0 0)
           (Finite 1) (Some ''box.dae'')), [])"
proof -
  have hit: "[''box.dae'' \<mapsto> \<lparr>convexHull = unit_square_shape\<rparr>] ''box.dae'' =
      Some \<lparr>convexHull = unit_square_shape\<rparr>"
    by simp
  have miss: "(Map.empty :: Shape2p5 cache) ''box.dae'' = None"
    by simp
  have hull: "CreateConvexHullFromPoints example_deps
      (allPts (fst (slice_buffers example_deps unit_box (Finite 0) (Finite 1) (pt3 0 0 0)
         (Finite 1)))) = unit_square_shape"
    by (simp add: example_defs unit_square_shape_def)
  show ?thesis
    using get_cached_any_arguments [of "[''box.dae'' \<mapsto> \<lparr>convexHull = unit_square_shape\<rparr>]"
        "''box.dae''" "\<lparr>convexHull = unit_square_shape\<rparr>" example_deps stepped_block
        "Finite 5" "Finite 6" "pt3 1 2 3" "Finite 7"]
      get_cached_any_arguments [of Map.empty "''box.dae''" _ example_deps unit_box
        "Finite 0" "Finite 1" "pt3 0 0 0" "Finite 1" stepped_block "Finite 5" "Finite 6"
        "pt3 1 2 3" "Finite 7"]
      hit miss hull
    by simp
qed

text \<open>
  Claim C3. The claim asks that a call which failed fails again when it is
  repeated. The code does otherwise when a model file is given: the
  placeholder entered at line 37 has received the hull at line 130 when the
  exception of line 146 is thrown, and it stays in the cache. The same call
  made again finds the key and returns the shape of null volume, with no
  error. The theorem is this behaviour of the code.
\<close>

theorem failed_get_poisons_cache:
  assumes "outcome (get D cache obj zMin zMax modelPose modelScale (Some k)) = Inl e"
  shows "outcome (get D (cache_after (get D cache obj zMin zMax modelPose modelScale (Some k)))
                    obj zMin zMax modelPose modelScale (Some k)) =
           Inr (CreateConvexHullFromPoints D
                  (allPts (fst (slice_buffers D obj zMin zMax modelPose modelScale))))
         \<and> ieee_less (volume D (CreateConvexHullFromPoints D
                  (allPts (fst (slice_buffers D obj zMin zMax modelPose modelScale)))))
              (Finite (1 / 10 ^ 8))"
proof -
  have miss: "cache k = None"
  proof (cases "cache k")
    case (Some it)
    with assms show ?thesis by (simp add: get_hit outcome_def)
  qed simp
  have small: "ieee_less (volume D (CreateConvexHullFromPoints D
                  (allPts (fst (slice_buffers D obj zMin zMax modelPose modelScale)))))
              (Finite (1 / 10 ^ 8))"
    using assms miss by (auto simp: get_def outcome_def Let_def split: prod.splits if_splits)
  show ?thesis
    using get_miss_entry [of cache k D obj zMin zMax modelPose modelScale] miss small
    by (simp add: get_hit outcome_def)
qed

theorem failed_get_poisons_cache_witness:
  "outcome (get example_deps Map.empty unit_box (Finite 5) (Finite 6) (pt3 0 0 0) (Finite 1)
       (Some ''box.dae'')) = Inl (NullVolume ''box.dae'' (Finite 0))
   \<and> outcome (get example_deps
        (cache_after (get example_deps Map.empty unit_box (Finite 5) (Finite 6) (pt3 0 0 0)
           (Finite 1) (Some ''box.dae'')))
        unit_box (Finite 5) (Finite 6) (pt3 0 0 0) (Finite 1) (Some ''box.dae'')) =
      Inr Shape2p5_empty"
proof -
  have failed: "outcome (get example_deps Map.empty unit_box (Finite 5) (Finite 6) (pt3 0 0 0)
       (Finite 1) (Some ''box.dae'')) = Inl (NullVolume ''box.dae'' (Finite 0))"
    by (simp add: example_defs)
  have hull: "CreateConvexHullFromPoints example_deps
      (allPts (fst (slice_buffers example_deps unit_box (Finite 5) (Finite 6) (pt3 0 0 0)
         (Finite 1)))) = Shape2p5_empty"
    by (simp add: example_defs)
  from failed_get_poisons_cache [OF failed] failed hull show ?thesis by simp
qed

subsection \<open>The height band\<close>

text \<open>
  Claim C5, as the code has it. The points that feed the hull are the
  vertices of the buffers, each placed as the library computes it (the product
  with the scale in floating point, then the composition with the pose), that
  pass the test of line 78: the height is neither below \<open>zMin\<close> nor above
  \<open>zMax\<close>. They come in the order of the traversal, and one step of the
  traversal appends the placed vertex when it passes and leaves the points as
  they are otherwise. When \<open>zMin\<close>, \<open>zMax\<close> and the height are numbers, the
  vertex passes if and only if its height is in the closed band from \<open>zMin\<close>
  to \<open>zMax\<close>.
\<close>

theorem height_band_filter:
  "allPts (fst (slice_buffers D obj zMin zMax modelPose modelScale)) =
     filter (passes zMin zMax) (map (placed D modelPose modelScale) (buffer_vertices D obj))
   \<and> allPts (lambdaUpdatePt D zMin zMax modelPose modelScale st v) =
       (if passes zMin zMax (placed D modelPose modelScale v)
        then allPts st @ [placed D modelPose modelScale v]
        else allPts st)
   \<and> (zMin \<noteq> NaN \<and> zMax \<noteq> NaN \<and> pt_z pt \<noteq> NaN \<longrightarrow>
        (passes zMin zMax pt \<longleftrightarrow> in_band zMin zMax pt))
   \<and> (zMin \<noteq> NaN \<and> zMax \<noteq> NaN \<and>
       (\<forall>v\<in>set (buffer_vertices D obj). pt_z (placed D modelPose modelScale v) \<noteq> NaN) \<longrightarrow>
        allPts (fst (slice_buffers D obj zMin zMax modelPose modelScale)) =
          filter (in_band zMin zMax)
            (map (placed D modelPose modelScale) (buffer_vertices D obj)))
   \<and> (modelFile = None \<or> (\<exists>k. modelFile = Some k \<and> cache k = None) \<longrightarrow>
        cache_after (get D cache obj zMin zMax modelPose modelScale modelFile) =
          (case modelFile of None \<Rightarrow> cache
           | Some k \<Rightarrow> cache(k \<mapsto> \<lparr>convexHull = CreateConvexHullFromPoints D
               (filter (passes zMin zMax)
                  (map (placed D modelPose modelScale) (buffer_vertices D obj)))\<rparr>)))"
proof -
  have all: "allPts (fst (slice_buffers D obj zMin zMax modelPose modelScale)) =
     filter (passes zMin zMax) (map (placed D modelPose modelScale) (buffer_vertices D obj))"
    by (simp add: slice_buffers_allPts surviving_def)
  have step: "allPts (lambdaUpdatePt D zMin zMax modelPose modelScale st v) =
       (if passes zMin zMax (placed D modelPose modelScale v)
        then allPts st @ [placed D modelPose modelScale v]
        else allPts st)"
    by (simp add: lambdaUpdatePt_allPts surviving_def)
  have one: "zMin \<noteq> NaN \<and> zMax \<noteq> NaN \<and> pt_z pt \<noteq> NaN \<longrightarrow>
        (passes zMin zMax pt \<longleftrightarrow> in_band zMin zMax pt)"
    by (simp add: passes_in_band)
  have band: "zMin \<noteq> NaN \<and> zMax \<noteq> NaN \<and>
       (\<forall>v\<in>set (buffer_vertices D obj). pt_z (placed D modelPose modelScale v) \<noteq> NaN) \<longrightarrow>
        allPts (fst (slice_buffers D obj zMin zMax modelPose modelScale)) =
          filter (in_band zMin zMax)
            (map (placed D modelPose modelScale) (buffer_vertices D obj))"
    unfolding all by (auto intro!: filter_cong simp: passes_in_band)
  have feed: "modelFile = None \<or> (\<exists>k. modelFile = Some k \<and> cache k = None) \<longrightarrow>
        cache_after (get D cache obj zMin zMax modelPose modelScale modelFile) =
          (case modelFile of None \<Rightarrow> cache
           | Some k \<Rightarrow> cache(k \<mapsto> \<lparr>convexHull = CreateConvexHullFromPoints D
               (filter (passes zMin zMax)
                  (map (placed D modelPose modelScale) (buffer_vertices D obj)))\<rparr>))"
    by (auto simp: get_def cache_after_def Let_def all [symmetric] split: prod.splits)
  from all step one band feed show ?thesis by blast
qed

theorem height_band_filter_witness:
  "allPts (fst (slice_buffers example_deps mixed_object (Finite (1/4)) (Finite 1) (pt3 1 0 (1/4))
      (Finite 2))) =
     [pt3 1 0 (1/4), pt3 1 2 (3/4), pt3 3 2 (1/2), pt3 5 0 (3/4), pt3 5 2 1, pt3 7 0 (1/2),
      pt3 9 0 (1/4), pt3 9 2 (3/4)]
   \<and> allPts (lambdaUpdatePt example_deps (Finite (1/4)) (Finite 1) (pt3 1 0 (1/4)) (Finite 2)
        scan0 (pt3 2 2 (1/2))) = []
   \<and> allPts (lambdaUpdatePt example_deps (Finite (1/4)) (Finite 1) (pt3 1 0 (1/4)) (Finite 2)
        scan0 (pt3 2 1 (3/8))) = [pt3 5 2 1]
   \<and> in_band (Finite (1/4)) (Finite 1) (pt3 5 2 1)
   \<and> \<not> in_band (Finite (1/4)) (Finite 1) (pt3 5 4 (5/4))
   \<and> cache_after (get example_deps Map.empty mixed_object (Finite (1/4)) (Finite 1)
        (pt3 1 0 (1/4)) (Finite 2) None) = Map.empty"
proof -
  have vs: "buffer_vertices example_deps mixed_object =
     [pt3 0 0 0, pt3 0 1 (1/4), pt3 0 2 (1/2), pt3 1 0 (-1/2), pt3 1 1 (1/8), pt3 1 2 1,
      pt3 2 0 (1/4), pt3 2 1 (3/8), pt3 2 2 (1/2), pt3 3 0 (1/8),
      pt3 4 0 0, pt3 4 1 (1/4), pt3 4 2 (1/2)]"
    by (simp add: buffer_vertices_def textured_vertices_def mixed_object_def example_deps_def
        modelled_deps_def)
  have pl: "placed example_deps (pt3 1 0 (1/4)) (Finite 2) (pt3 a b c) =
      pt3 (a * 2 + 1) (b * 2) (c * 2 + 1/4)" for a b c
    by (simp add: placed_def example_deps_def modelled_deps_def example_scale_def translate_def
        pt3_def)
  have ps: "passes (Finite (1/4)) (Finite 1) (pt3 a b c) \<longleftrightarrow> 1/4 \<le> c \<and> c \<le> 1" for a b c
    by (auto simp: passes_def pt3_def)
  have ib: "in_band (Finite (1/4)) (Finite 1) (pt3 a b c) \<longleftrightarrow> 1/4 \<le> c \<and> c \<le> 1" for a b c
    by (auto simp: in_band_def pt3_def)
  have nn: "pt_z (pt3 a b c) \<noteq> NaN" "Finite (1/4) \<noteq> NaN" "Finite 1 \<noteq> NaN" for a b c
    by (simp_all add: pt3_def)
  show ?thesis
    using height_band_filter [of example_deps mixed_object "Finite (1/4)" "Finite 1"
        "pt3 1 0 (1/4)" "Finite 2" scan0 "pt3 2 2 (1/2)" "pt3 5 2 1" None Map.empty]
      height_band_filter [of example_deps mixed_object "Finite (1/4)" "Finite 1"
        "pt3 1 0 (1/4)" "Finite 2" scan0 "pt3 2 1 (3/8)" "pt3 5 4 (5/4)" None Map.empty]
    by (simp add: vs pl ps ib nn scan0_def)
qed

text \<open>
  Claim C5 as it is stated fails. A height that is not a number is below no
  bound and above none, so the test of line 78 keeps the vertex, while no
  band contains it. And a lower bound that is not a number is not tested: a
  vertex far below the upper bound is kept.
\<close>

theorem height_band_filter_counterexample:
  "allPts (fst (slice_buffers example_deps (points_object [nan_point]) (Finite 0) (Finite 1)
      (pt3 0 0 0) (Finite 1))) = [nan_point]
   \<and> \<not> in_band (Finite 0) (Finite 1) nan_point
   \<and> allPts (fst (slice_buffers example_deps (points_object [pt3 0 0 (-5)]) NaN (Finite 1)
      (pt3 0 0 0) (Finite 1))) = [pt3 0 0 (-5)]
   \<and> \<not> in_band NaN (Finite 1) (pt3 0 0 (-5))"
  by (simp add: example_defs nan_point_def in_band_def)

subsection \<open>Calls without a model file\<close>

text \<open>
  Claim C7, as the code has it. A call of \<open>get\<close> without a model file leaves
  the cache as it is, its result does not depend on the cache, and so a second
  call with another scale behaves as if the first had not been made. Each call
  builds its hull from the vertices multiplied by its own scale, composed with
  the pose and cut by the band.
\<close>

theorem get_without_key:
  "cache_after (get D cache obj zMin zMax modelPose modelScale None) = cache
   \<and> get D (cache_after (get D cache obj zMin zMax modelPose modelScale None))
        obj zMin zMax modelPose modelScale' None =
      get D cache obj zMin zMax modelPose modelScale' None
   \<and> outcome (get D cache obj zMin zMax modelPose modelScale None) =
      outcome (get D cache' obj zMin zMax modelPose modelScale None)
   \<and> outcome (get D cache obj zMin zMax modelPose modelScale None) =
      (let ret = CreateConvexHullFromPoints D
                   (surviving D zMin zMax modelPose modelScale (buffer_vertices D obj))
       in if ieee_less (volume D ret) (Finite (1 / 10 ^ 8))
          then Inl (NullVolume ''none'' (volume D ret))
          else Inr ret)"
proof -
  have frame: "cache_after (get D c obj zMin zMax modelPose modelScale None) = c" for c
    by (simp add: get_no_key cache_after_def Let_def split: prod.splits)
  have out: "outcome (get D c obj zMin zMax modelPose modelScale None) =
      (let ret = CreateConvexHullFromPoints D
                   (surviving D zMin zMax modelPose modelScale (buffer_vertices D obj))
       in if ieee_less (volume D ret) (Finite (1 / 10 ^ 8))
          then Inl (NullVolume ''none'' (volume D ret))
          else Inr ret)" for c
    using get_miss_outcome [of None c D obj zMin zMax modelPose modelScale]
    by (simp add: Let_def)
  show ?thesis
    unfolding frame out by simp
qed

text \<open>
  Claim C7 as it is stated fails: the hulls of two calls that differ in the
  scale need not be scaled copies of each other, because the band is applied
  to the scaled heights. With the scale 1 every vertex of the stepped block
  is in the band from 0 to 1 and the hull is the large square; with the
  scale 2 the large square is above the band and the hull is the small square
  doubled.
\<close>

theorem get_without_key_counterexample:
  "outcome (get example_deps Map.empty stepped_block (Finite 0) (Finite 1) (pt3 0 0 0) (Finite 1)
       None) =
     Inr \<lparr>contour = [(0, 0), (3, 0), (3, 3), (0, 3)], shape_zMin = 1/4, shape_zMax = 7/8\<rparr>
   \<and> outcome (get example_deps Map.empty stepped_block (Finite 0) (Finite 1) (pt3 0 0 0) (Finite 2)
       None) =
     Inr \<lparr>contour = [(0, 0), (2, 0), (2, 2), (0, 2)], shape_zMin = 1/2, shape_zMax = 1\<rparr>
   \<and> [(0, 0), (2, 0), (2, 2), (0, 2)] \<noteq> scale_contour 2 [(0, 0), (3, 0), (3, 3), (0, 3)]"
  by (simp add: example_defs stepped_block_def)

subsection \<open>The report of a null volume\<close>

text \<open>
  Claim C2, as the code has it. When a call of \<open>get\<close> is not answered from
  the cache and the hull of the surviving points has a volume below
  \<open>10\<^sup>-\<^sup>8\<close>, the call fails, and the report holds the name of the
  model file, or \<open>none\<close>, and the computed volume.
\<close>

theorem null_volume_report:
  assumes "modelFile = None \<or> (\<exists>k. modelFile = Some k \<and> cache k = None)"
    and "ieee_less (volume D (CreateConvexHullFromPoints D
           (surviving D zMin zMax modelPose modelScale (buffer_vertices D obj))))
           (Finite (1 / 10 ^ 8))"
  shows "outcome (get D cache obj zMin zMax modelPose modelScale modelFile) =
     Inl (NullVolume (case modelFile of None \<Rightarrow> ''none'' | Some k \<Rightarrow> k)
            (volume D (CreateConvexHullFromPoints D
               (surviving D zMin zMax modelPose modelScale (buffer_vertices D obj)))))"
  using get_miss_outcome [OF assms(1), of D obj zMin zMax modelPose modelScale] assms(2)
  by (simp add: Let_def)

theorem null_volume_report_witness:
  "outcome (get example_deps Map.empty unit_box (Finite 5) (Finite 6) (pt3 0 0 0) (Finite 1)
       (Some ''box.dae'')) = Inl (NullVolume ''box.dae'' (Finite 0))"
proof -
  have miss: "Some ''box.dae'' = None \<or>
      (\<exists>k. Some ''box.dae'' = Some k \<and> (Map.empty :: Shape2p5 cache) k = None)"
    by simp
  have vs: "buffer_vertices example_deps unit_box =
     [pt3 0 0 0, pt3 1 0 0, pt3 1 1 0, pt3 0 1 0, pt3 0 0 1, pt3 1 0 1, pt3 1 1 1, pt3 0 1 1]"
    by (simp add: buffer_vertices_def unit_box_def points_object_def)
  have hull: "CreateConvexHullFromPoints example_deps
      (surviving example_deps (Finite 5) (Finite 6) (pt3 0 0 0) (Finite 1)
         (buffer_vertices example_deps unit_box)) = Shape2p5_empty"
    unfolding vs by (simp add: surviving_def passes_def placed_def example_defs)
  have vol: "volume example_deps Shape2p5_empty = Finite 0"
    by (simp add: example_defs)
  have small: "ieee_less (volume example_deps (CreateConvexHullFromPoints example_deps
      (surviving example_deps (Finite 5) (Finite 6) (pt3 0 0 0) (Finite 1)
         (buffer_vertices example_deps unit_box)))) (Finite (1 / 10 ^ 8))"
    unfolding hull vol by simp
  from null_volume_report [OF miss small] show ?thesis
    unfolding hull vol by simp
qed

text \<open>
  Claim C2 as it is stated fails. The report does not tell the band: a point
  at the height \<open>1/2\<close> gives the same report with the band from 0 to 1, which
  keeps it, and with the band from 5 to 6, which drops it. And a call whose
  key is in the cache does not fail, whatever the band leaves of the object.
\<close>

theorem null_volume_report_counterexample:
  "outcome (get example_deps Map.empty (points_object [pt3 0 0 (1/2)]) (Finite 0) (Finite 1)
       (pt3 0 0 0) (Finite 1) (Some ''dot.dae'')) = Inl (NullVolume ''dot.dae'' (Finite 0))
   \<and> outcome (get example_deps Map.empty (points_object [pt3 0 0 (1/2)]) (Finite 5) (Finite 6)
       (pt3 0 0 0) (Finite 1) (Some ''dot.dae'')) = Inl (NullVolume ''dot.dae'' (Finite 0))
   \<and> outcome (get example_deps [''box.dae'' \<mapsto> \<lparr>convexHull = unit_square_shape\<rparr>]
       unit_box (Finite 5) (Finite 6) (pt3 0 0 0) (Finite 1) (Some ''box.dae'')) =
      Inr unit_square_shape"
  by (simp add: example_defs)

section \<open>Properties of the 2.5D shape\<close>

lemma orient_same [simp]: "orient p p r = 0"
  by (simp add: orient_def)

lemma hull_edge_left: "hull_edge P a q \<Longrightarrow> r \<in> set P \<Longrightarrow> 0 \<le> orient a q r"
  by (auto simp: hull_edge_def keeps_def list_all_iff)

lemma leftmost_in: "leftmost p qs \<in> insert p (set qs)"
  by (induction qs arbitrary: p) (auto split: if_splits)

lemma wrap_hd: "wrap n P p0 a = Some ch \<Longrightarrow> ch \<noteq> [] \<and> hd ch = a"
  by (cases n) (auto split: option.splits if_splits)

lemma wrap_subset: "wrap n P p0 a = Some ch \<Longrightarrow> set ch \<subseteq> insert a (set P)"
proof (induction n arbitrary: a ch)
  case 0
  then show ?case by simp
next
  case (Suc n)
  from Suc.prems obtain q where q: "find (hull_edge P a) P = Some q"
    by (auto split: option.splits)
  then have qP: "q \<in> set P" by (auto simp: find_Some_iff)
  show ?case
  proof (cases "q = p0")
    case True
    with Suc.prems q show ?thesis by auto
  next
    case False
    with Suc.prems q obtain ch' where ch': "wrap n P p0 q = Some ch'" "ch = a # ch'"
      by auto
    from Suc.IH [OF ch'(1)] qP ch'(2) show ?thesis by auto
  qed
qed

lemma wrap_edges:
  "wrap n P p0 a = Some ch \<Longrightarrow> (u, v) \<in> set (zip ch (tl ch @ [p0])) \<Longrightarrow> hull_edge P u v"
proof (induction n arbitrary: a ch)
  case 0
  then show ?case by simp
next
  case (Suc n)
  from Suc.prems(1) obtain q where q: "find (hull_edge P a) P = Some q"
    by (auto split: option.splits)
  then have edge: "hull_edge P a q" by (auto simp: find_Some_iff)
  show ?case
  proof (cases "q = p0")
    case True
    with Suc.prems q edge show ?thesis by auto
  next
    case False
    with Suc.prems(1) q obtain ch' where ch': "wrap n P p0 q = Some ch'" "ch = a # ch'"
      by auto
    from wrap_hd [OF ch'(1)] obtain t where t: "ch' = q # t" by (cases ch') auto
    from Suc.prems(2) have "(u, v) = (a, q) \<or> (u, v) \<in> set (zip ch' (tl ch' @ [p0]))"
      by (simp add: ch'(2) t)
    then show ?thesis
      using edge Suc.IH [OF ch'(1)] by auto
  qed
qed

lemma edges_hd: "ch \<noteq> [] \<Longrightarrow> edges ch = zip ch (tl ch @ [hd ch])"
  by (cases ch) (simp_all add: edges_def)

lemma convex_hull_subset: "set (convex_hull P) \<subseteq> set P"
proof (cases P)
  case Nil
  then show ?thesis by (simp add: convex_hull_def)
next
  case (Cons p ps)
  have p0: "leftmost p ps \<in> set P" using leftmost_in [of p ps] by (simp add: Cons)
  show ?thesis
  proof (cases "wrap (length P) P (leftmost p ps) (leftmost p ps)")
    case None
    with p0 show ?thesis by (simp add: convex_hull_def Cons)
  next
    case (Some ch)
    from wrap_subset [OF Some] p0 have "set ch \<subseteq> set P" by auto
    with Some show ?thesis by (simp add: convex_hull_def Cons)
  qed
qed

lemma convex_hull_edges:
  assumes "(u, v) \<in> set (edges (convex_hull P))" and "r \<in> set P"
  shows "0 \<le> orient u v r"
proof (cases P)
  case Nil
  with assms show ?thesis by simp
next
  case (Cons p ps)
  show ?thesis
  proof (cases "wrap (length P) P (leftmost p ps) (leftmost p ps)")
    case None
    then have "convex_hull P = [leftmost p ps]" by (simp add: convex_hull_def Cons)
    with assms(1) show ?thesis by (simp add: edges_def)
  next
    case (Some ch)
    then have ch: "convex_hull P = ch" by (simp add: convex_hull_def Cons)
    from wrap_hd [OF Some] have "edges ch = zip ch (tl ch @ [leftmost p ps])"
      by (simp add: edges_hd)
    with assms(1) ch have "hull_edge P u v" using wrap_edges [OF Some] by simp
    then show ?thesis using assms(2) by (rule hull_edge_left)
  qed
qed

lemma convex_hull_inside: "r \<in> set P \<Longrightarrow> inside (convex_hull P) r"
  by (auto simp: inside_def list_all_iff dest: convex_hull_edges)

subsection \<open>The walk around the hull closes\<close>

text \<open>
  The bound of \<open>wrap\<close> is enough: when the points are not all equal, the walk
  from the leftmost point comes back to it within as many steps as there are
  points, and the hull is the closed walk. The proof needs that every vertex
  of the walk has a next hull edge, which follows from the order of the
  directions in a half plane, and that a vertex has one predecessor only.
\<close>

lemma lagrange2:
  fixes dx dy vx vy :: real
  shows "(vx * dx + vy * dy)\<^sup>2 + (dx * vy - dy * vx)\<^sup>2 = (vx * vx + vy * vy) * (dx * dx + dy * dy)"
  by (simp add: power2_eq_square algebra_simps)

lemma norm_pos2: fixes x y :: real shows "x \<noteq> 0 \<or> y \<noteq> 0 \<Longrightarrow> 0 < x * x + y * y"
  by (metis add_pos_nonneg add_nonneg_pos not_real_square_gt_zero zero_le_square)

lemma parallel_dot_neg:
  fixes dx dy vx vy :: real
  assumes "dx * vy - dy * vx = 0" "vx * dx + vy * dy \<le> 0" "vx \<noteq> 0 \<or> vy \<noteq> 0" "dx \<noteq> 0 \<or> dy \<noteq> 0"
  shows "vx * dx + vy * dy < 0"
proof -
  have "(vx * dx + vy * dy)\<^sup>2 = (vx * vx + vy * vy) * (dx * dx + dy * dy)"
    using lagrange2 [where vx = vx and dx = dx and vy = vy and dy = dy] assms(1) by simp
  moreover have "0 < (vx * vx + vy * vy) * (dx * dx + dy * dy)"
    using norm_pos2 [OF assms(3)] norm_pos2 [OF assms(4)] by simp
  ultimately have "vx * dx + vy * dy \<noteq> 0" by auto
  with assms(2) show ?thesis by simp
qed

lemma turn_case:
  fixes dx dy ux uy wx wy vx vy :: real
  assumes d: "dx \<noteq> 0 \<or> dy \<noteq> 0"
    and Su: "0 < dx * uy - dy * ux \<or> (dx * uy - dy * ux = 0 \<and> ux * dx + uy * dy \<le> 0)"
    and Sw: "0 < dx * wy - dy * wx \<or> (dx * wy - dy * wx = 0 \<and> wx * dx + wy * dy \<le> 0)"
    and Sv: "0 < dx * vy - dy * vx \<or> (dx * vy - dy * vx = 0 \<and> vx * dx + vy * dy \<le> 0)"
    and w: "wx \<noteq> 0 \<or> wy \<noteq> 0"
    and lt: "ux * wy - uy * wx < 0"
    and E: "0 < ux * vy - uy * vx \<or> (ux * vy - uy * vx = 0 \<and> 0 \<le> vx * (ux - vx) + vy * (uy - vy))"
  shows "0 < wx * vy - wy * vx \<or> (wx * vy - wy * vx = 0 \<and> 0 \<le> vx * (wx - vx) + vy * (wy - vy))"
proof (cases "vx = 0 \<and> vy = 0")
  case True
  then show ?thesis by simp
next
  case False
  define A where "A = dx * uy - dy * ux"
  define B where "B = dx * wy - dy * wx"
  define C where "C = dx * vy - dy * vx"
  define X where "X = ux * vy - uy * vx"
  define Y where "Y = wx * uy - wy * ux"
  define Z where "Z = wx * vy - wy * vx"
  have A: "0 \<le> A" and B: "0 \<le> B" and C: "0 \<le> C" and X: "0 \<le> X" and Y: "0 < Y"
    using Su Sw Sv E lt by (auto simp: A_def B_def C_def X_def Y_def algebra_simps)
  have I1: "A * Z = B * X + C * Y"
    by (simp add: A_def B_def C_def X_def Y_def Z_def algebra_simps)
  have dd: "0 < dx * dx + dy * dy" using d by (rule norm_pos2)
  have "0 < Z"
  proof (cases "0 < C")
    case True
    have "0 < C * Y" using True Y by simp
    moreover have "0 \<le> B * X" using B X by simp
    ultimately have "0 < A * Z" using I1 by linarith
    with A show ?thesis by (simp add: zero_less_mult_iff)
  next
    case False
    with C have C0: "C = 0" by simp
    with Sv have vd0: "vx * dx + vy * dy \<le> 0" by (auto simp: C_def)
    have vd: "vx * dx + vy * dy < 0"
      using parallel_dot_neg [where dx = dx and dy = dy and vx = vx and vy = vy] C0 vd0 \<open>\<not> (vx = 0 \<and> vy = 0)\<close> d
      by (auto simp: C_def)
    have I2: "(dx * dx + dy * dy) * Z = - (vx * dx + vy * dy) * B + C * (wx * dx + wy * dy)"
      by (simp add: B_def C_def Z_def algebra_simps)
    show ?thesis
    proof (cases "0 < B")
      case True
      then have "0 < - (vx * dx + vy * dy) * B" using vd by (simp add: mult_neg_pos)
      then have "0 < (dx * dx + dy * dy) * Z" using I2 C0 by simp
      with dd show ?thesis by (simp add: zero_less_mult_iff)
    next
      case False
      with B have B0: "B = 0" by simp
      with Sw have "wx * dx + wy * dy \<le> 0" by (auto simp: B_def)
      then have wd: "wx * dx + wy * dy < 0"
        using parallel_dot_neg [where dx = dx and dy = dy and vx = wx and vy = wy] B0 w d by (auto simp: B_def)
      have I3: "(dx * dx + dy * dy) * Y = - (ux * dx + uy * dy) * B + A * (wx * dx + wy * dy)"
        by (simp add: A_def B_def Y_def algebra_simps)
      have "A * (wx * dx + wy * dy) \<le> 0" using A wd by (simp add: mult_le_0_iff)
      then have "(dx * dx + dy * dy) * Y \<le> 0" using I3 B0 by simp
      moreover have "0 < (dx * dx + dy * dy) * Y" using dd Y by simp
      ultimately show ?thesis by simp
    qed
  qed
  then show ?thesis by (simp add: Z_def)
qed

lemma beyond_case:
  fixes dx dy ux uy wx wy vx vy :: real
  assumes d: "dx \<noteq> 0 \<or> dy \<noteq> 0"
    and Su: "0 < dx * uy - dy * ux \<or> (dx * uy - dy * ux = 0 \<and> ux * dx + uy * dy \<le> 0)"
    and Sw: "0 < dx * wy - dy * wx \<or> (dx * wy - dy * wx = 0 \<and> wx * dx + wy * dy \<le> 0)"
    and u: "ux \<noteq> 0 \<or> uy \<noteq> 0"
    and w: "wx \<noteq> 0 \<or> wy \<noteq> 0"
    and col: "ux * wy - uy * wx = 0"
    and beyond: "wx * (ux - wx) + wy * (uy - wy) < 0"
    and E: "0 < ux * vy - uy * vx \<or> (ux * vy - uy * vx = 0 \<and> 0 \<le> vx * (ux - vx) + vy * (uy - vy))"
  shows "0 < wx * vy - wy * vx \<or> (wx * vy - wy * vx = 0 \<and> 0 \<le> vx * (wx - vx) + vy * (wy - vy))"
proof -
  define A where "A = dx * uy - dy * ux"
  define B where "B = dx * wy - dy * wx"
  define uu where "uu = ux * ux + uy * uy"
  define ww where "ww = wx * wx + wy * wy"
  define wu where "wu = wx * ux + wy * uy"
  have A: "0 \<le> A" and B: "0 \<le> B" using Su Sw by (auto simp: A_def B_def)
  have uu: "0 < uu" unfolding uu_def using u by (rule norm_pos2)
  have ww: "0 < ww" unfolding ww_def using w by (rule norm_pos2)
  have dd: "0 < dx * dx + dy * dy" using d by (rule norm_pos2)
  have sq: "wu * wu = ww * uu"
    using lagrange2 [where vx = wx and dx = ux and vy = wy and dy = uy] col
    by (simp add: wu_def ww_def uu_def power2_eq_square algebra_simps)
  have wu_pos: "0 < wu"
  proof (rule ccontr)
    assume "\<not> 0 < wu"
    moreover have "wu \<noteq> 0" using sq ww uu by auto
    ultimately have neg: "wu < 0" by simp
    have J1: "uu * B = wu * A + (ux * wy - uy * wx) * (dx * ux + dy * uy)"
      by (simp add: A_def B_def uu_def wu_def algebra_simps)
    then have "uu * B = wu * A" using col by simp
    moreover have "0 \<le> uu * B" using uu B by simp
    moreover have "wu * A \<le> 0" using neg A by (simp add: mult_le_0_iff)
    ultimately have "uu * B = 0" "wu * A = 0" by linarith+
    then have B0: "B = 0" and A0: "A = 0" using uu neg by auto
    from A0 Su have ud: "ux * dx + uy * dy \<le> 0" by (auto simp: A_def)
    from B0 Sw have wd: "wx * dx + wy * dy \<le> 0" by (auto simp: B_def)
    have J2: "uu * (wx * dx + wy * dy) =
        wu * (ux * dx + uy * dy) + (ux * wy - uy * wx) * (ux * dy - uy * dx)"
      by (simp add: uu_def wu_def algebra_simps)
    then have "uu * (wx * dx + wy * dy) = wu * (ux * dx + uy * dy)" using col by simp
    moreover have "0 \<le> wu * (ux * dx + uy * dy)" using neg ud by (simp add: zero_le_mult_iff)
    ultimately have "0 \<le> uu * (wx * dx + wy * dy)" by simp
    with uu have "0 \<le> wx * dx + wy * dy" by (simp add: zero_le_mult_iff)
    with wd have "wx * dx + wy * dy = 0" by simp
    moreover have "wx * dx + wy * dy < 0"
      using parallel_dot_neg [where dx = dx and dy = dy and vx = wx and vy = wy] B0 wd w d by (auto simp: B_def)
    ultimately show False by simp
  qed
  have "wu < ww" using beyond by (simp add: wu_def ww_def algebra_simps)
  then have "wu * wu < ww * wu" using wu_pos by simp
  then have "ww * uu < ww * wu" using sq by simp
  then have uu_wu: "uu < wu" using ww by simp
  have K1: "uu * (wx * vy - wy * vx) =
      wu * (ux * vy - uy * vx) - (ux * wy - uy * wx) * (ux * vx + uy * vy)"
    by (simp add: uu_def wu_def algebra_simps)
  then have K1': "uu * (wx * vy - wy * vx) = wu * (ux * vy - uy * vx)" using col by simp
  from E show ?thesis
  proof
    assume "0 < ux * vy - uy * vx"
    then have "0 < wu * (ux * vy - uy * vx)" using wu_pos by simp
    then have "0 < uu * (wx * vy - wy * vx)" using K1' by simp
    with uu show ?thesis by (simp add: zero_less_mult_iff)
  next
    assume e: "ux * vy - uy * vx = 0 \<and> 0 \<le> vx * (ux - vx) + vy * (uy - vy)"
    then have "uu * (wx * vy - wy * vx) = 0" using K1' by simp
    with uu have Z0: "wx * vy - wy * vx = 0" by simp
    have vv_vu: "vx * vx + vy * vy \<le> vx * ux + vy * uy"
      using e by (simp add: algebra_simps)
    have vu: "0 \<le> vx * ux + vy * uy"
    proof -
      have "0 \<le> vx * vx + vy * vy" by simp
      with vv_vu show ?thesis by linarith
    qed
    have K2: "uu * (vx * wx + vy * wy) =
        wu * (vx * ux + vy * uy) + (ux * wy - uy * wx) * (vy * ux - vx * uy)"
      by (simp add: uu_def wu_def algebra_simps)
    then have "uu * (vx * wx + vy * wy) = wu * (vx * ux + vy * uy)" using col by simp
    moreover have "uu * (vx * ux + vy * uy) \<le> wu * (vx * ux + vy * uy)"
      using uu_wu vu by (simp add: mult_right_mono)
    moreover have "uu * (vx * vx + vy * vy) \<le> uu * (vx * ux + vy * uy)"
      using vv_vu uu by simp
    ultimately have "uu * (vx * vx + vy * vy) \<le> uu * (vx * wx + vy * wy)" by linarith
    with uu have "vx * vx + vy * vy \<le> vx * wx + vy * wy" by simp
    then have "0 \<le> vx * (wx - vx) + vy * (wy - vy)" by (simp add: algebra_simps)
    with Z0 show ?thesis by simp
  qed
qed

lemma pair_neq: "q \<noteq> a \<longleftrightarrow> fst q - fst a \<noteq> (0::real) \<or> snd q - snd a \<noteq> (0::real)"
  by (cases q; cases a) auto

lemma hull_edge_keeps: "hull_edge P a q \<longleftrightarrow> q \<noteq> a \<and> (\<forall>r\<in>set P. keeps a q r)"
  by (simp add: hull_edge_def list_all_iff)

lemma supported_behind: "supported P a b \<longleftrightarrow> b \<noteq> a \<and> (\<forall>r\<in>set P. behind a b r)"
  by (simp add: supported_def list_all_iff)

lemma keeps_self [simp]: "keeps a q q" "keeps a q a"
  by (simp_all add: keeps_def orient_def on_span_def)

lemma behind_vec:
  "behind a b r \<longleftrightarrow>
     0 < (fst b - fst a) * (snd r - snd a) - (snd b - snd a) * (fst r - fst a) \<or>
     ((fst b - fst a) * (snd r - snd a) - (snd b - snd a) * (fst r - fst a) = 0 \<and>
      (fst r - fst a) * (fst b - fst a) + (snd r - snd a) * (snd b - snd a) \<le> 0)"
  by (simp add: behind_def orient_def)

lemma keeps_vec:
  "keeps a q r \<longleftrightarrow>
     0 < (fst q - fst a) * (snd r - snd a) - (snd q - snd a) * (fst r - fst a) \<or>
     ((fst q - fst a) * (snd r - snd a) - (snd q - snd a) * (fst r - fst a) = 0 \<and>
      0 \<le> (fst r - fst a) * ((fst q - fst a) - (fst r - fst a)) +
          (snd r - snd a) * ((snd q - snd a) - (snd r - snd a)))"
  by (simp add: keeps_def orient_def on_span_def)

lemma turn_pts:
  assumes "b \<noteq> a" "behind a b q" "behind a b s" "behind a b r" "s \<noteq> a"
    and "orient a q s < 0" "keeps a q r"
  shows "keeps a s r"
  using turn_case [where dx = "fst b - fst a" and dy = "snd b - snd a" and ux = "fst q - fst a"
      and uy = "snd q - snd a" and wx = "fst s - fst a" and wy = "snd s - snd a"
      and vx = "fst r - fst a" and vy = "snd r - snd a"] assms
  unfolding keeps_vec behind_vec orient_def pair_neq
  by blast

lemma beyond_pts:
  assumes "b \<noteq> a" "behind a b q" "behind a b s" "q \<noteq> a" "s \<noteq> a"
    and "orient a q s = 0" "\<not> on_span a s q" "keeps a q r"
  shows "keeps a s r"
proof -
  from assms(7)
  have "(fst s - fst a) * ((fst q - fst a) - (fst s - fst a)) +
        (snd s - snd a) * ((snd q - snd a) - (snd s - snd a)) < 0"
    by (simp add: on_span_def not_le)
  then show ?thesis
    using beyond_case [where dx = "fst b - fst a" and dy = "snd b - snd a" and ux = "fst q - fst a"
        and uy = "snd q - snd a" and wx = "fst s - fst a" and wy = "snd s - snd a"
        and vx = "fst r - fst a" and vy = "snd r - snd a"] assms(1-6,8)
    unfolding keeps_vec behind_vec orient_def pair_neq
    by blast
qed

lemma next_exists:
  assumes "supported Q a b" "\<exists>r\<in>set Q. r \<noteq> a"
  shows "\<exists>q\<in>set Q. hull_edge Q a q"
  using assms
proof (induction Q)
  case Nil
  then show ?case by simp
next
  case (Cons s Q)
  from Cons.prems(1) have ba: "b \<noteq> a" and bs: "behind a b s" and bQ: "\<forall>r\<in>set Q. behind a b r"
    by (auto simp: supported_behind)
  then have supQ: "supported Q a b" by (simp add: supported_behind)
  show ?case
  proof (cases "\<exists>r\<in>set Q. r \<noteq> a")
    case False
    with Cons.prems(2) have "s \<noteq> a" by auto
    moreover have "\<forall>r\<in>set (s # Q). keeps a s r" using False by auto
    ultimately have "hull_edge (s # Q) a s" by (simp add: hull_edge_keeps)
    then show ?thesis by auto
  next
    case True
    from Cons.IH [OF supQ True] obtain q where q: "q \<in> set Q" "hull_edge Q a q" by blast
    then have qa: "q \<noteq> a" and kq: "\<forall>r\<in>set Q. keeps a q r" by (auto simp: hull_edge_keeps)
    have bq: "behind a b q" using bQ q(1) by blast
    show ?thesis
    proof (cases "keeps a q s")
      case True
      with qa kq have "hull_edge (s # Q) a q" by (simp add: hull_edge_keeps)
      with q(1) show ?thesis by auto
    next
      case False
      then have sa: "s \<noteq> a" by auto
      have "keeps a s r" if "r \<in> set Q" for r
      proof (cases "orient a q s < 0")
        case True
        from ba bq bs _ sa True show ?thesis
          by (rule turn_pts) (use that bQ kq in auto)
      next
        case neg: False
        with False have "orient a q s = 0" "\<not> on_span a s q" by (auto simp: keeps_def)
        with ba bq bs qa sa show ?thesis
          by (rule beyond_pts) (use that kq in auto)
      qed
      then have "hull_edge (s # Q) a s" using sa by (simp add: hull_edge_keeps)
      then show ?thesis by auto
    qed
  qed
qed

lemma leftmost_least:
  "(fst (leftmost p qs) < fst p \<or> (fst (leftmost p qs) = fst p \<and> snd (leftmost p qs) \<le> snd p))
   \<and> (\<forall>r\<in>set qs. fst (leftmost p qs) < fst r \<or>
          (fst (leftmost p qs) = fst r \<and> snd (leftmost p qs) \<le> snd r))"
proof (induction qs arbitrary: p)
  case Nil
  show ?case by simp
next
  case (Cons q qs)
  show ?case
    using Cons.IH [of q] Cons.IH [of p] by (auto split: if_splits)
qed

lemma supported_leftmost:
  "supported (p # ps) (leftmost p ps) (fst (leftmost p ps), snd (leftmost p ps) - 1)"
proof -
  have "(fst (leftmost p ps), snd (leftmost p ps) - 1) \<noteq> leftmost p ps"
    by (cases "leftmost p ps") simp
  then show ?thesis
    using leftmost_least [of p ps]
    by (auto simp: supported_behind behind_def orient_def)
qed

lemma supported_next:
  assumes "hull_edge P a q"
  shows "supported P q (2 * fst q - fst a, 2 * snd q - snd a)"
proof -
  from assms have qa: "q \<noteq> a" and k: "\<forall>r\<in>set P. keeps a q r" by (auto simp: hull_edge_keeps)
  have "behind q (2 * fst q - fst a, 2 * snd q - snd a) r" if "r \<in> set P" for r
  proof -
    from k that have kr: "keeps a q r" by blast
    have o: "orient q (2 * fst q - fst a, 2 * snd q - snd a) r = orient a q r"
      by (simp add: orient_def algebra_simps)
    have "(fst r - fst q) * (fst q - fst a) + (snd r - snd q) * (snd q - snd a) \<le> 0"
      if "on_span a r q"
    proof -
      have "0 \<le> (fst q - fst r) * (fst q - fst r) + (snd q - snd r) * (snd q - snd r)" by simp
      with that show ?thesis by (simp add: on_span_def algebra_simps)
    qed
    with kr show ?thesis by (auto simp: behind_def keeps_def o)
  qed
  moreover have "(2 * fst q - fst a, 2 * snd q - snd a) \<noteq> q"
    using qa by (cases q; cases a) auto
  ultimately show ?thesis by (simp add: supported_behind)
qed

lemma edge_inj:
  assumes "hull_edge P a q" "hull_edge P b q" "a \<in> set P" "b \<in> set P"
  shows "a = b"
proof -
  from assms have kb: "keeps a q b" and ka: "keeps b q a" by (auto simp: hull_edge_keeps)
  have neg: "orient b q a = - orient a q b" by (simp add: orient_def algebra_simps)
  from kb ka neg have oa: "on_span a b q" and ob: "on_span b a q" by (auto simp: keeps_def)
  have "(fst b - fst a) * (fst q - fst b) + (snd b - snd a) * (snd q - snd b) +
        ((fst a - fst b) * (fst q - fst a) + (snd a - snd b) * (snd q - snd a)) =
        - ((fst a - fst b) * (fst a - fst b) + (snd a - snd b) * (snd a - snd b))"
    by (simp add: algebra_simps)
  with oa ob have "(fst a - fst b) * (fst a - fst b) + (snd a - snd b) * (snd a - snd b) \<le> 0"
    by (simp add: on_span_def)
  then have "fst a - fst b = 0 \<and> snd a - snd b = 0"
    using norm_pos2 [of "fst a - fst b" "snd a - snd b"] by force
  then show ?thesis by (cases a; cases b) simp
qed

lemma successor_in_tail:
  "successively R xs \<Longrightarrow> q \<in> set xs \<Longrightarrow> q \<noteq> last xs \<Longrightarrow> \<exists>u\<in>set (tl xs). R q u"
proof (induction xs)
  case Nil
  then show ?case by simp
next
  case (Cons x xs)
  show ?case
  proof (cases xs)
    case Nil
    with Cons.prems show ?thesis by simp
  next
    case (Cons y ys)
    show ?thesis
    proof (cases "q = x")
      case True
      with Cons.prems(1) Cons show ?thesis by auto
    next
      case False
      with Cons.prems Cons have "\<exists>u\<in>set (tl xs). R q u"
        by (intro Cons.IH) auto
      then show ?thesis using Cons by auto
    qed
  qed
qed

lemma walk_fresh:
  assumes "distinct (a # rest)" "set (a # rest) \<subseteq> set P" "last (a # rest) = p0"
    and "successively (\<lambda>v u. hull_edge P u v) (a # rest)"
    and "hull_edge P a q" "q \<noteq> p0"
  shows "q \<notin> set (a # rest)"
proof
  assume mem: "q \<in> set (a # rest)"
  from successor_in_tail [OF assms(4) mem] assms(3,6)
  obtain u where u: "u \<in> set rest" "hull_edge P u q" by auto
  from u(1) assms(2) have "u \<in> set P" "a \<in> set P" by auto
  with assms(5) u(2) have "a = u" by (intro edge_inj [of P a q u]) auto
  with u(1) assms(1) show False by simp
qed

lemma wrap_closes:
  assumes "distinct (a # rest)" "set (a # rest) \<subseteq> set P" "last (a # rest) = p0"
    and "successively (\<lambda>v u. hull_edge P u v) (a # rest)"
    and "supported P a b" "\<exists>r\<in>set P. r \<noteq> a" "card (set P) \<le> n + length rest"
  shows "wrap n P p0 a \<noteq> None"
  using assms
proof (induction n arbitrary: a rest b)
  case 0
  have "card (set (a # rest)) \<le> card (set P)"
    using "0.prems"(2) by (intro card_mono) auto
  moreover have "card (set (a # rest)) = length (a # rest)"
    using "0.prems"(1) by (rule distinct_card)
  ultimately show ?case using "0.prems"(7) by simp
next
  case (Suc n)
  from next_exists [OF Suc.prems(5,6)] obtain q where q: "find (hull_edge P a) P = Some q"
    by (cases "find (hull_edge P a) P") (auto simp: find_None_iff)
  then have edge: "hull_edge P a q" and qP: "q \<in> set P" by (auto simp: find_Some_iff)
  show ?case
  proof (cases "q = p0")
    case True
    with q show ?thesis by simp
  next
    case False
    have fresh: "q \<notin> set (a # rest)"
      using Suc.prems(1-4) edge False by (rule walk_fresh)
    have p0P: "p0 \<in> set P" using Suc.prems(2,3) last_in_set [of "a # rest"] by auto
    have "wrap n P p0 q \<noteq> None"
    proof (rule Suc.IH [where rest = "a # rest"])
      show "distinct (q # a # rest)" using fresh Suc.prems(1) by simp
      show "set (q # a # rest) \<subseteq> set P" using qP Suc.prems(2) by simp
      show "last (q # a # rest) = p0" using Suc.prems(3) by simp
      show "successively (\<lambda>v u. hull_edge P u v) (q # a # rest)"
        using edge Suc.prems(4) by simp
      show "supported P q (2 * fst q - fst a, 2 * snd q - snd a)"
        using edge by (rule supported_next)
      show "\<exists>r\<in>set P. r \<noteq> q" using p0P False by auto
      show "card (set P) \<le> n + length (a # rest)" using Suc.prems(7) by simp
    qed
    with q False show ?thesis by auto
  qed
qed

lemma convex_hull_walk:
  assumes "\<exists>r\<in>set (p # ps). r \<noteq> leftmost p ps"
  shows "\<exists>ch. wrap (length (p # ps)) (p # ps) (leftmost p ps) (leftmost p ps) = Some ch
           \<and> convex_hull (p # ps) = ch"
proof -
  have "leftmost p ps \<in> set (p # ps)" using leftmost_in [of p ps] by simp
  then have "wrap (length (p # ps)) (p # ps) (leftmost p ps) (leftmost p ps) \<noteq> None"
    using assms supported_leftmost [of p ps] card_length [of "p # ps"]
    by (intro wrap_closes [where rest = "[]"]) auto
  then obtain ch where "wrap (length (p # ps)) (p # ps) (leftmost p ps) (leftmost p ps) = Some ch"
    by blast
  then show ?thesis by (simp add: convex_hull_def del: wrap.simps)
qed

lemma convex_hull_single:
  assumes "\<forall>r\<in>set (p # ps). r = leftmost p ps"
  shows "convex_hull (p # ps) = [leftmost p ps]"
proof -
  have "find (hull_edge (p # ps) (leftmost p ps)) (p # ps) = None"
    using assms by (auto simp: find_None_iff hull_edge_keeps)
  then have "wrap (length (p # ps)) (p # ps) (leftmost p ps) (leftmost p ps) = None"
    by simp
  then show ?thesis by (simp add: convex_hull_def del: wrap.simps)
qed

subsection \<open>The hull is a polygon without repeated vertices, counterclockwise\<close>

lemma wrap_distinct:
  assumes "distinct (a # rest)" "set (a # rest) \<subseteq> set P" "last (a # rest) = p0"
    and "successively (\<lambda>v u. hull_edge P u v) (a # rest)"
    and "wrap n P p0 a = Some ch"
  shows "distinct (rev rest @ ch)"
  using assms
proof (induction n arbitrary: a rest ch)
  case 0
  then show ?case by simp
next
  case (Suc n)
  from Suc.prems(5) obtain q where q: "find (hull_edge P a) P = Some q"
    by (auto split: option.splits)
  then have edge: "hull_edge P a q" and qP: "q \<in> set P" by (auto simp: find_Some_iff)
  show ?case
  proof (cases "q = p0")
    case True
    with Suc.prems(5) q have "ch = [a]" by auto
    with Suc.prems(1) show ?thesis by simp
  next
    case False
    with Suc.prems(5) q obtain ch' where ch': "wrap n P p0 q = Some ch'" "ch = a # ch'"
      by auto
    have fresh: "q \<notin> set (a # rest)"
      using Suc.prems(1-4) edge False by (rule walk_fresh)
    have "distinct (rev (a # rest) @ ch')"
    proof (rule Suc.IH)
      show "distinct (q # a # rest)" using fresh Suc.prems(1) by simp
      show "set (q # a # rest) \<subseteq> set P" using qP Suc.prems(2) by simp
      show "last (q # a # rest) = p0" using Suc.prems(3) by simp
      show "successively (\<lambda>v u. hull_edge P u v) (q # a # rest)"
        using edge Suc.prems(4) by simp
      show "wrap n P p0 q = Some ch'" by (rule ch'(1))
    qed
    then show ?thesis by (simp add: ch'(2))
  qed
qed

lemma convex_hull_distinct: "distinct (convex_hull P)"
proof (cases P)
  case Nil
  then show ?thesis by (simp add: convex_hull_def)
next
  case (Cons p ps)
  have p0: "leftmost p ps \<in> set P" using leftmost_in [of p ps] by (simp add: Cons)
  show ?thesis
  proof (cases "wrap (length P) P (leftmost p ps) (leftmost p ps)")
    case None
    then show ?thesis by (simp add: convex_hull_def Cons)
  next
    case (Some ch)
    have "distinct (rev [] @ ch)"
      using _ _ _ _ Some by (rule wrap_distinct) (use p0 in auto)
    with Some show ?thesis by (simp add: convex_hull_def Cons)
  qed
qed

lemma orient_cycle: "orient c a b = orient a b c"
  by (simp add: orient_def algebra_simps)

lemma sum_orient_shift:
  "(\<Sum>(a, b) \<leftarrow> E. orient c a b) =
     (\<Sum>(a, b) \<leftarrow> E. fst a * snd b - fst b * snd a)
     - (\<Sum>a \<leftarrow> map fst E. fst a * snd c - fst c * snd a)
     + (\<Sum>b \<leftarrow> map snd E. fst b * snd c - fst c * snd b)"
  by (induction E) (auto simp: orient_def algebra_simps)

lemma sum_list_rotate1: "(\<Sum>x \<leftarrow> rotate1 C. f x) = (\<Sum>x \<leftarrow> C. (f x :: real))"
  by (cases C) simp_all

lemma area_as_orient:
  "signedArea C = (\<Sum>(a, b) \<leftarrow> edges C. orient c a b) / 2"
proof -
  have "map fst (edges C) = C" "map snd (edges C) = rotate1 C"
    by (simp_all add: edges_def)
  then show ?thesis
    using sum_orient_shift [of c "edges C"]
    by (simp add: signedArea_def sum_list_rotate1)
qed

lemma convex_hull_area_nonneg: "0 \<le> signedArea (convex_hull P)"
proof (cases "convex_hull P")
  case Nil
  then show ?thesis by (simp add: signedArea_def edges_def)
next
  case (Cons c C)
  then have "c \<in> set P" using convex_hull_subset [of P] by auto
  then have "0 \<le> orient c a b" if "(a, b) \<in> set (edges (convex_hull P))" for a b
    using convex_hull_edges [OF that] by (simp add: orient_cycle)
  then have "0 \<le> (\<Sum>(a, b) \<leftarrow> edges (convex_hull P). orient c a b)"
    by (intro sum_list_nonneg) auto
  then show ?thesis by (simp add: area_as_orient [of _ c])
qed

lemma area_short: "length C < 3 \<Longrightarrow> signedArea C = 0"
proof (cases C)
  case Nil
  then show ?thesis by (simp add: signedArea_def edges_def)
next
  case C: (Cons a C1)
  assume short: "length C < 3"
  show ?thesis
  proof (cases C1)
    case Nil
    with C show ?thesis by (simp add: signedArea_def edges_def)
  next
    case C1: (Cons b C2)
    with C short have "C2 = []" by simp
    with C C1 show ?thesis by (simp add: signedArea_def edges_def)
  qed
qed

lemma convex_hull_convex:
  assumes "signedArea (convex_hull P) \<noteq> 0"
  shows "convex_polygon (convex_hull P)"
proof -
  have "3 \<le> length (convex_hull P)"
    using assms area_short [of "convex_hull P"] by (cases "length (convex_hull P) < 3") auto
  moreover have "0 < signedArea (convex_hull P)"
    using assms convex_hull_area_nonneg [of P] by simp
  moreover have "list_all (inside (convex_hull P)) (convex_hull P)"
    using convex_hull_subset [of P] by (auto simp: list_all_iff intro: convex_hull_inside)
  ultimately show ?thesis
    using convex_hull_distinct [of P] by (simp add: convex_polygon_def)
qed

subsection \<open>The returned shape\<close>

lemma modelled_deps_simps:
  "CreateConvexHullFromPoints (modelled_deps ver scale compose num band) =
     Shape2p5_CreateConvexHullFromPoints num band"
  "volume (modelled_deps ver scale compose num band) = Shape2p5_volume"
  "Shape2p5_new (modelled_deps ver scale compose num band) = Shape2p5_empty"
  by (simp_all add: modelled_deps_def)

lemma built_contour:
  "contour (Shape2p5_CreateConvexHullFromPoints num band pts) =
     convex_hull (map (project num) pts)"
  by (simp add: Shape2p5_CreateConvexHullFromPoints_def)

lemma passed_volume_area:
  assumes "\<not> ieee_less (Shape2p5_volume sh) (Finite (1 / 10 ^ 8))"
  shows "signedArea (contour sh) \<noteq> 0"
proof
  assume "signedArea (contour sh) = 0"
  then have "Shape2p5_volume sh = Finite 0" by (simp add: Shape2p5_volume_def)
  with assms show False by simp
qed

lemma built_shape_facts:
  assumes "\<not> ieee_less (Shape2p5_volume (Shape2p5_CreateConvexHullFromPoints num band pts))
             (Finite (1 / 10 ^ 8))"
  shows "convex_polygon (contour (Shape2p5_CreateConvexHullFromPoints num band pts))
     \<and> set (contour (Shape2p5_CreateConvexHullFromPoints num band pts)) \<subseteq> project num ` set pts
     \<and> list_all (\<lambda>q. inside (contour (Shape2p5_CreateConvexHullFromPoints num band pts))
                      (project num q)) pts"
proof -
  have "signedArea (convex_hull (map (project num) pts)) \<noteq> 0"
    using passed_volume_area [OF assms] by (simp add: built_contour)
  then have "convex_polygon (convex_hull (map (project num) pts))"
    by (rule convex_hull_convex)
  moreover have "set (convex_hull (map (project num) pts)) \<subseteq> project num ` set pts"
    using convex_hull_subset [of "map (project num) pts"] by simp
  moreover have "list_all (\<lambda>q. inside (convex_hull (map (project num) pts)) (project num q)) pts"
    by (auto simp: list_all_iff intro!: convex_hull_inside)
  ultimately show ?thesis by (simp add: built_contour)
qed

text \<open>
  Claim C6, as the code has it. A successful call that is not answered from
  the cache returns the shape built from the surviving points of the call. It
  is a convex polygon, its vertices are projections of surviving points, and
  it contains the projection of every surviving point. With a model file the
  call stores an entry that a hit returns later, and the shape of such an
  entry has the same properties for the points of the call that stored it.
  The shape is built from the points alone: two calls that keep the same
  points return the same result, whatever their bands are.
\<close>

theorem hull_convex_contains:
  "((modelFile = None \<or> (\<exists>k. modelFile = Some k \<and> cache k = None)) \<and>
    pts = surviving (modelled_deps ver scale compose num band) zMin zMax modelPose modelScale
            (buffer_vertices (modelled_deps ver scale compose num band) obj) \<and>
    outcome (get (modelled_deps ver scale compose num band) cache obj zMin zMax modelPose
               modelScale modelFile) = Inr sh \<longrightarrow>
      sh = Shape2p5_CreateConvexHullFromPoints num band pts
      \<and> convex_polygon (contour sh)
      \<and> set (contour sh) \<subseteq> project num ` set pts
      \<and> list_all (\<lambda>q. inside (contour sh) (project num q)) pts
      \<and> (\<forall>k. modelFile = Some k \<longrightarrow>
            (\<exists>it. cache_after (get (modelled_deps ver scale compose num band) cache obj zMin zMax
                     modelPose modelScale modelFile) k = Some it
                  \<and> stored_by_success num band pts it)))
   \<and> (cache k' = Some it' \<and> stored_by_success num band pts' it' \<longrightarrow>
        outcome (get (modelled_deps ver scale compose num band) cache obj zMin zMax modelPose
                   modelScale (Some k')) = Inr (convexHull it')
        \<and> convex_polygon (contour (convexHull it'))
        \<and> set (contour (convexHull it')) \<subseteq> project num ` set pts'
        \<and> list_all (\<lambda>q. inside (contour (convexHull it')) (project num q)) pts')
   \<and> (surviving D zMin zMax modelPose modelScale (buffer_vertices D obj) =
       surviving D zMin' zMax' modelPose' modelScale' (buffer_vertices D obj') \<longrightarrow>
        outcome (get D cache obj zMin zMax modelPose modelScale None) =
        outcome (get D cache obj' zMin' zMax' modelPose' modelScale' None))"
proof -
  let ?D = "modelled_deps ver scale compose num band"
  let ?G = "get ?D cache obj zMin zMax modelPose modelScale modelFile"
  have computed: "sh = Shape2p5_CreateConvexHullFromPoints num band pts
      \<and> convex_polygon (contour sh)
      \<and> set (contour sh) \<subseteq> project num ` set pts
      \<and> list_all (\<lambda>q. inside (contour sh) (project num q)) pts
      \<and> (\<forall>k. modelFile = Some k \<longrightarrow>
            (\<exists>it. cache_after ?G k = Some it \<and> stored_by_success num band pts it))"
    if miss: "modelFile = None \<or> (\<exists>k. modelFile = Some k \<and> cache k = None)"
      and pts: "pts = surviving ?D zMin zMax modelPose modelScale (buffer_vertices ?D obj)"
      and ok: "outcome ?G = Inr sh"
  proof -
    from get_miss_outcome [OF miss, of ?D obj zMin zMax modelPose modelScale] ok
    have sh: "sh = Shape2p5_CreateConvexHullFromPoints num band pts"
      and vol: "\<not> ieee_less (Shape2p5_volume (Shape2p5_CreateConvexHullFromPoints num band pts))
                  (Finite (1 / 10 ^ 8))"
      by (auto simp: Let_def modelled_deps_simps pts split: if_splits)
    have stored: "\<exists>it. cache_after ?G k = Some it \<and> stored_by_success num band pts it"
      if k: "modelFile = Some k" for k
    proof -
      from miss k have "cache k = None" by simp
      then have "cache_after ?G k = Some \<lparr>convexHull = sh\<rparr>"
        unfolding k sh pts
        by (simp add: get_miss_entry slice_buffers_allPts modelled_deps_simps)
      then show ?thesis using vol by (simp add: stored_by_success_def sh)
    qed
    from built_shape_facts [OF vol] sh stored show ?thesis by simp
  qed
  have hit: "outcome (get ?D cache obj zMin zMax modelPose modelScale (Some k')) =
          Inr (convexHull it')
        \<and> convex_polygon (contour (convexHull it'))
        \<and> set (contour (convexHull it')) \<subseteq> project num ` set pts'
        \<and> list_all (\<lambda>q. inside (contour (convexHull it')) (project num q)) pts'"
    if "cache k' = Some it'" and st: "stored_by_success num band pts' it'"
  proof -
    from st have eq: "convexHull it' = Shape2p5_CreateConvexHullFromPoints num band pts'"
      and vol: "\<not> ieee_less (Shape2p5_volume (Shape2p5_CreateConvexHullFromPoints num band pts'))
                  (Finite (1 / 10 ^ 8))"
      by (auto simp: stored_by_success_def)
    from built_shape_facts [OF vol] that(1) show ?thesis
      by (simp add: eq [symmetric] get_hit outcome_def)
  qed
  have same: "outcome (get D cache obj zMin zMax modelPose modelScale None) =
        outcome (get D cache obj' zMin' zMax' modelPose' modelScale' None)"
    if "surviving D zMin zMax modelPose modelScale (buffer_vertices D obj) =
        surviving D zMin' zMax' modelPose' modelScale' (buffer_vertices D obj')"
    using that get_miss_outcome [of None cache D obj zMin zMax modelPose modelScale]
      get_miss_outcome [of None cache D obj' zMin' zMax' modelPose' modelScale']
    by simp
  from computed hit same show ?thesis by blast
qed

theorem hull_convex_contains_witness:
  "outcome (get example_deps Map.empty stepped_block (Finite 0) (Finite 1) (pt3 0 0 0) (Finite 2)
       (Some ''block.dae'')) =
     Inr \<lparr>contour = [(0, 0), (2, 0), (2, 2), (0, 2)], shape_zMin = 1/2, shape_zMax = 1\<rparr>
   \<and> convex_polygon [(0, 0), (2, 0), (2, 2), (0, 2)]
   \<and> list_all (inside [(0, 0), (2, 0), (2, 2), (0, 2)]) [(0, 0), (2, 0), (2, 2), (0, 2)]
   \<and> \<not> inside [(0, 0), (2, 0), (2, 2), (0, 2)] (3, 0)
   \<and> \<not> convex_polygon [] \<and> \<not> convex_polygon [(0, 0), (1, 0), (2, 0)]
   \<and> cache_after (get example_deps Map.empty stepped_block (Finite 0) (Finite 1) (pt3 0 0 0)
        (Finite 2) (Some ''block.dae'')) =
      [''block.dae'' \<mapsto> \<lparr>convexHull =
         \<lparr>contour = [(0, 0), (2, 0), (2, 2), (0, 2)], shape_zMin = 1/2, shape_zMax = 1\<rparr>\<rparr>]
   \<and> outcome (get example_deps
        [''block.dae'' \<mapsto> \<lparr>convexHull =
           \<lparr>contour = [(0, 0), (2, 0), (2, 2), (0, 2)], shape_zMin = 1/2, shape_zMax = 1\<rparr>\<rparr>]
        unit_box (Finite 0) (Finite 1) (pt3 0 0 0) (Finite 1) (Some ''block.dae'')) =
     Inr \<lparr>contour = [(0, 0), (2, 0), (2, 2), (0, 2)], shape_zMin = 1/2, shape_zMax = 1\<rparr>
   \<and> outcome (get example_deps
        [''block.dae'' \<mapsto> \<lparr>convexHull =
           \<lparr>contour = [(0, 0), (2, 0), (2, 2), (0, 2)], shape_zMin = 1/2, shape_zMax = 1\<rparr>\<rparr>]
        unit_box (Finite 0) (Finite 1) (pt3 0 0 0) (Finite 1) None) =
     outcome (get example_deps
        [''block.dae'' \<mapsto> \<lparr>convexHull =
           \<lparr>contour = [(0, 0), (2, 0), (2, 2), (0, 2)], shape_zMin = 1/2, shape_zMax = 1\<rparr>\<rparr>]
        unit_box (Finite 0) (Finite 2) (pt3 0 0 0) (Finite 1) None)"
proof -
  let ?sq = "\<lparr>contour = [(0, 0), (2, 0), (2, 2), (0, 2)], shape_zMin = 1/2, shape_zMax = 1\<rparr>"
  let ?pts = "[pt3 0 0 (1/2), pt3 2 0 (1/2), pt3 2 2 1, pt3 0 2 1]"
  let ?after = "[''block.dae'' \<mapsto> \<lparr>convexHull = ?sq\<rparr>]"
  have vs: "buffer_vertices example_deps stepped_block =
     [pt3 0 0 (1/4), pt3 1 0 (1/4), pt3 1 1 (1/2), pt3 0 1 (1/2),
      pt3 0 0 (7/8), pt3 3 0 (7/8), pt3 3 3 (7/8), pt3 0 3 (7/8)]"
    by (simp add: buffer_vertices_def stepped_block_def points_object_def)
  have pts: "?pts = surviving example_deps (Finite 0) (Finite 1) (pt3 0 0 0) (Finite 2)
      (buffer_vertices example_deps stepped_block)"
    unfolding vs
    by (simp add: surviving_def passes_def placed_def example_deps_def modelled_deps_def
        example_scale_def translate_def pt3_def)
  have ok: "outcome (get example_deps Map.empty stepped_block (Finite 0) (Finite 1) (pt3 0 0 0)
      (Finite 2) (Some ''block.dae'')) = Inr ?sq"
    by (simp add: example_defs stepped_block_def)
  have miss: "Some ''block.dae'' = None \<or>
      (\<exists>k. Some ''block.dae'' = Some k \<and> (Map.empty :: Shape2p5 cache) k = None)"
    by simp
  have stored: "stored_by_success example_num heights_range ?pts \<lparr>convexHull = ?sq\<rparr>"
    by (simp add: stored_by_success_def example_defs)
  have outside: "\<not> inside [(0, 0), (2, 0), (2, 2), (0, 2)] (3, 0)"
    and degenerate: "\<not> convex_polygon []" "\<not> convex_polygon [(0, 0), (1, 0), (2, 0)]"
    by (simp_all add: inside_def convex_polygon_def edges_def orient_def signedArea_def)
  have same: "surviving example_deps (Finite 0) (Finite 1) (pt3 0 0 0) (Finite 1)
        (buffer_vertices example_deps unit_box) =
      surviving example_deps (Finite 0) (Finite 2) (pt3 0 0 0) (Finite 1)
        (buffer_vertices example_deps unit_box)"
    by (simp add: buffer_vertices_def unit_box_def points_object_def surviving_def passes_def
        placed_def example_deps_def modelled_deps_def example_scale_def translate_def pt3_def)
  note first_call = hull_convex_contains [where modelFile = "Some ''block.dae''"
      and cache = Map.empty and pts = ?pts and ver = "0x260" and scale = example_scale
      and compose = translate and num = example_num and band = heights_range
      and zMin = "Finite 0" and zMax = "Finite 1" and modelPose = "pt3 0 0 0"
      and modelScale = "Finite 2" and obj = stepped_block and sh = ?sq
      and k' = "''block.dae''" and it' = "\<lparr>convexHull = ?sq\<rparr>" and pts' = ?pts
      and D = example_deps and zMin' = "Finite 0" and zMax' = "Finite 1"
      and modelPose' = "pt3 0 0 0" and modelScale' = "Finite 2" and obj' = stepped_block,
      folded example_deps_def]
  note second_call = hull_convex_contains [where modelFile = "Some ''block.dae''"
      and cache = ?after and pts = ?pts and ver = "0x260" and scale = example_scale
      and compose = translate and num = example_num and band = heights_range
      and zMin = "Finite 0" and zMax = "Finite 1" and modelPose = "pt3 0 0 0"
      and modelScale = "Finite 1" and obj = unit_box and sh = ?sq
      and k' = "''block.dae''" and it' = "\<lparr>convexHull = ?sq\<rparr>" and pts' = ?pts
      and D = example_deps and zMin' = "Finite 0" and zMax' = "Finite 2"
      and modelPose' = "pt3 0 0 0" and modelScale' = "Finite 1" and obj' = unit_box,
      folded example_deps_def]
  from first_call miss pts ok
  have computed: "convex_polygon (contour ?sq)
      \<and> list_all (\<lambda>q. inside (contour ?sq) (project example_num q)) ?pts
      \<and> (\<exists>it. cache_after (get example_deps Map.empty stepped_block (Finite 0) (Finite 1)
            (pt3 0 0 0) (Finite 2) (Some ''block.dae'')) ''block.dae'' = Some it
          \<and> stored_by_success example_num heights_range ?pts it)"
    by blast
  have after: "cache_after (get example_deps Map.empty stepped_block (Finite 0) (Finite 1)
      (pt3 0 0 0) (Finite 2) (Some ''block.dae'')) = ?after"
    by (simp add: example_defs stepped_block_def)
  from second_call stored
  have hit: "outcome (get example_deps ?after unit_box (Finite 0) (Finite 1) (pt3 0 0 0)
      (Finite 1) (Some ''block.dae'')) = Inr ?sq"
    by simp
  from second_call same
  have band: "outcome (get example_deps ?after unit_box (Finite 0) (Finite 1) (pt3 0 0 0)
        (Finite 1) None) =
      outcome (get example_deps ?after unit_box (Finite 0) (Finite 2) (pt3 0 0 0)
        (Finite 1) None)"
    by blast
  from computed have "convex_polygon [(0, 0), (2, 0), (2, 2), (0, 2)]"
    and "list_all (inside [(0, 0), (2, 0), (2, 2), (0, 2)]) [(0, 0), (2, 0), (2, 2), (0, 2)]"
    by (simp_all add: project_def pt3_def)
  with ok outside degenerate after hit band show ?thesis by simp
qed

text \<open>
  Claim C6 as it is stated fails in its last part: \<open>get\<close> passes the points
  to \<^verbatim>\<open>CreateConvexHullFromPoints\<close> and not the band, so the shape cannot carry
  the band of the call. The unit box gives one and the same shape with the
  band from 0 to 1 and with the band from 0 to 2.
\<close>

theorem hull_band_counterexample:
  "outcome (get example_deps Map.empty unit_box (Finite 0) (Finite 1) (pt3 0 0 0) (Finite 1)
       None) = Inr unit_square_shape
   \<and> outcome (get example_deps Map.empty unit_box (Finite 0) (Finite 2) (pt3 0 0 0) (Finite 1)
       None) = Inr unit_square_shape
   \<and> (shape_zMin unit_square_shape, shape_zMax unit_square_shape) \<noteq> (0, 2)"
  by (simp add: example_defs unit_square_shape_def)

section \<open>Properties of the vehicle\<close>

text \<open>
  Claim C10. For a name that is not in the map of loggers, \<open>getLoggerPtr\<close>
  enters the name with a null pointer and returns the null pointer; nothing
  else of the vehicle changes. The method has no failure: for every name it
  returns the pointer of the entry, or the null pointer when there was none,
  so that an absent logger and an entry holding a null pointer give the same
  result.
\<close>

theorem getLoggerPtr_absent:
  "(map_of (loggers v) logger_name = None \<longrightarrow>
      getLoggerPtr v logger_name = (None, v\<lparr>loggers := loggers v @ [(logger_name, None)]\<rparr>)
      \<and> map_of (loggers (snd (getLoggerPtr v logger_name))) =
          (map_of (loggers v))(logger_name \<mapsto> None))
   \<and> fst (getLoggerPtr v logger_name) =
       (case map_of (loggers v) logger_name of None \<Rightarrow> None | Some ptr \<Rightarrow> ptr)
   \<and> map_of (loggers (snd (getLoggerPtr v logger_name))) logger_name =
       Some (fst (getLoggerPtr v logger_name))"
proof -
  have "map_of (loggers v @ [(logger_name, None)]) = (map_of (loggers v))(logger_name \<mapsto> None)"
    if "map_of (loggers v) logger_name = None"
    using that by (auto simp: map_add_def fun_eq_iff split: option.splits)
  then show ?thesis
    by (auto simp: getLoggerPtr_def split: option.splits)
qed

theorem getLoggerPtr_absent_witness:
  "map_of (loggers (VehicleBase_new 2 :: nat VehicleBase)) ''logger_pose'' = None
   \<and> getLoggerPtr (VehicleBase_new 2 :: nat VehicleBase) ''logger_pose'' =
       (None, (VehicleBase_new 2)\<lparr>loggers := [(''logger_pose'', None)]\<rparr>)
   \<and> fst (getLoggerPtr (snd (getLoggerPtr (VehicleBase_new 2 :: nat VehicleBase) ''logger_pose''))
        ''logger_pose'') = None"
proof -
  have absent: "map_of (loggers (VehicleBase_new 2 :: nat VehicleBase)) ''logger_pose'' = None"
    by (simp add: VehicleBase_new_def)
  have ls: "loggers (VehicleBase_new 2 :: nat VehicleBase) = []"
    by (simp add: VehicleBase_new_def)
  show ?thesis
    using getLoggerPtr_absent [of "VehicleBase_new 2 :: nat VehicleBase" "''logger_pose''"]
      getLoggerPtr_absent [of "(VehicleBase_new 2 :: nat VehicleBase)\<lparr>loggers := [(''logger_pose'', None)]\<rparr>"
        "''logger_pose''"]
      absent
    by (simp add: ls)
qed

lemma each_logger_keeps_wheels:
  "with_loggers f v = Inr v' \<Longrightarrow> wheels_info v' = wheels_info v"
  by (auto simp: with_loggers_def split: sum.splits)

lemma apply_operation_wheels:
  "apply_operation M v op = Inr v' \<Longrightarrow> getNumWheels v' = getNumWheels v"
proof (cases op)
  case (PreStep torques)
  then show "apply_operation M v op = Inr v' \<Longrightarrow> ?thesis"
    by (auto simp: getNumWheels_def simul_pre_timestep_def)
next
  case (PostStep pose vel spins)
  then show "apply_operation M v op = Inr v' \<Longrightarrow> ?thesis"
    by (auto simp: getNumWheels_def simul_post_timestep_def)
next
  case (CreateMultibody degenerate chassis handle)
  then show "apply_operation M v op = Inr v' \<Longrightarrow> ?thesis"
    by (auto simp: getNumWheels_def create_multibody_system_def split: if_splits)
next
  case GetNumWheels
  then show "apply_operation M v op = Inr v' \<Longrightarrow> ?thesis" by auto
next
  case (GetWheelInfo idx)
  then show "apply_operation M v op = Inr v' \<Longrightarrow> ?thesis"
    by (auto split: sum.splits)
next
  case (PutWheelInfo idx w)
  then show "apply_operation M v op = Inr v' \<Longrightarrow> ?thesis"
    by (auto simp: getNumWheels_def putWheelInfo_def split: if_splits)
next
  case (GetLoggerPtr logger_name)
  then show "apply_operation M v op = Inr v' \<Longrightarrow> ?thesis"
    by (auto simp: getNumWheels_def getLoggerPtr_def split: option.splits)
next
  case (SetVehicleIndex idx)
  then show "apply_operation M v op = Inr v' \<Longrightarrow> ?thesis"
    by (auto simp: getNumWheels_def setVehicleIndex_def)
next
  case (SetRecording flag)
  then show "apply_operation M v op = Inr v' \<Longrightarrow> ?thesis"
    by (auto simp: getNumWheels_def setRecording_def dest: each_logger_keeps_wheels)
next
  case ClearLogs
  then show "apply_operation M v op = Inr v' \<Longrightarrow> ?thesis"
    by (auto simp: getNumWheels_def clearLogs_def dest: each_logger_keeps_wheels)
next
  case NewLogSession
  then show "apply_operation M v op = Inr v' \<Longrightarrow> ?thesis"
    by (auto simp: getNumWheels_def newLogSession_def dest: each_logger_keeps_wheels)
qed

lemma run_wheels: "run M v ops = Inr v' \<Longrightarrow> getNumWheels v' = getNumWheels v"
proof (induction ops arbitrary: v)
  case Nil
  then show ?case by simp
next
  case (Cons op ops)
  then obtain v1 where step: "apply_operation M v op = Inr v1" and rest: "run M v1 ops = Inr v'"
    by (auto split: sum.splits)
  from Cons.IH [OF rest] apply_operation_wheels [OF step] show ?case by simp
qed

text \<open>
  Claim C9. A vehicle constructed with \<open>nWheels\<close> wheels reports that number,
  and so does the vehicle after every run of operations (steps before and
  after the physics, assembly of the bodies, logging, access to the wheels and
  to the loggers).
\<close>

theorem wheel_count_invariant:
  "getNumWheels (VehicleBase_new nWheels :: 'l VehicleBase) = nWheels
   \<and> (run M (VehicleBase_new nWheels) ops = Inr (v :: 'l VehicleBase) \<longrightarrow>
        getNumWheels v = nWheels)"
proof -
  have new: "getNumWheels (VehicleBase_new nWheels :: 'l VehicleBase) = nWheels"
    by (simp add: getNumWheels_def VehicleBase_new_def)
  then show ?thesis
    using run_wheels [of M "VehicleBase_new nWheels" ops v] by auto
qed

theorem wheel_count_invariant_witness:
  "map_sum id getNumWheels (run counting_logger (VehicleBase_new 2) example_operations) = Inr 2"
proof -
  have "\<exists>v. run counting_logger (VehicleBase_new 2) example_operations = Inr v"
    by (simp add: example_operations_def VehicleBase_new_def create_multibody_system_def
        setRecording_def with_loggers_def simul_pre_timestep_def simul_post_timestep_def
        putWheelInfo_def getWheelInfo_def setVehicleIndex_def newLogSession_def clearLogs_def
        getLoggerPtr_def)
  then obtain v where r: "run counting_logger (VehicleBase_new 2) example_operations = Inr v"
    by blast
  from wheel_count_invariant [of 2 counting_logger example_operations v] r
  have "getNumWheels v = 2" by blast
  then show ?thesis unfolding r by simp
qed
end
